theory Spec2Isabelle
  imports Main "HOL-Library.Log_Nat" "HOL-Library.Sublist" "HOL-Library.Multiset"
begin

section \<open>Python values used by the resource metrics code\<close>

text \<open>
  The code under study is \<^verbatim>\<open>parse_quantity\<close> and the cluster CPU, cluster memory and pod
  metrics loops of \<^verbatim>\<open>src/unified_server.py\<close> and \<^verbatim>\<open>src/k8s_mcp_server.py\<close> (the two files
  hold the same \<^verbatim>\<open>parse_quantity\<close> and the same two cluster loops, character for
  character up to the names of two temporaries; each is embedded once).

  Exceptions are values: a computation that may raise has type \<open>py_error + 'a\<close>.
\<close>

datatype py_error = ValueError | ZeroDivisionError

definition bnd :: "py_error + 'a \<Rightarrow> ('a \<Rightarrow> py_error + 'b) \<Rightarrow> py_error + 'b" where
  "bnd r f = (case r of Inl e \<Rightarrow> Inl e | Inr v \<Rightarrow> f v)"

subsection \<open>Binary64 numbers\<close>

text \<open>
  A Python \<^verbatim>\<open>float\<close> is an IEEE 754 binary64 number. A finite one is kept as the rational it
  denotes; every operation computes the exact rational result and rounds it to the nearest
  binary64 number, ties to the even significand, as the hardware does. The two zeros
  are one value \<open>Fin 0\<close> (they compare equal in Python, and the code never divides by one),
  and so is the \<^verbatim>\<open>int\<close> \<open>0\<close> that \<^verbatim>\<open>parse_quantity\<close> returns for an empty string and that
  the totals start from: Python converts it to \<open>0.0\<close> in every operation it meets here.
\<close>

datatype pyfloat = Fin rat | PInf | NInf | NaN

definition rne :: "rat \<Rightarrow> int" where
  \<comment> \<open>round to the nearest integer, a tie to the even one\<close>
  "rne q = (let f = \<lfloor>q\<rfloor>; d = q - of_int f
            in if d < 1 / 2 then f else if 1 / 2 < d then f + 1
               else if even f then f else f + 1)"

definition scale2 :: "rat \<Rightarrow> int \<Rightarrow> rat" where
  \<comment> \<open>\<open>q * 2^e\<close> for an integer exponent\<close>
  "scale2 q e = (if 0 \<le> e then q * 2 ^ nat e else q / 2 ^ nat (- e))"

definition binade :: "rat \<Rightarrow> int" where
  \<comment> \<open>for \<open>a > 0\<close>, the exponent \<open>b\<close> with \<open>2^b \<le> a < 2^(b+1)\<close>\<close>
  "binade a = (if 1 \<le> a then bitlen \<lfloor>a\<rfloor> - 1
               else let k = bitlen \<lfloor>1 / a\<rfloor>
                    in if a < scale2 1 (1 - k) then - k else 1 - k)"

definition to_double :: "rat \<Rightarrow> pyfloat" where
  \<comment> \<open>53 significant bits, least exponent \<open>-1074\<close>, overflow at \<open>2^1024\<close>\<close>
  "to_double q = (if q = 0 then Fin 0 else
     let a = \<bar>q\<bar>; b = binade a; e = max (b - 52) (- 1074);
         m = rne (scale2 a (- e))
     in if 1024 \<le> b \<or> (b = 1023 \<and> m = 2 ^ 53) then (if 0 < q then PInf else NInf)
        else Fin (if 0 < q then scale2 (of_int m) e else - scale2 (of_int m) e))"

definition int_to_float :: "int \<Rightarrow> pyfloat" where
  \<comment> \<open>the conversion Python applies to an \<^verbatim>\<open>int\<close> operand of a float operation; the
     integers of this code are all below \<open>2^53\<close>\<close>
  "int_to_float n = to_double (of_int n)"

fun fl_neg :: "pyfloat \<Rightarrow> pyfloat" where
  "fl_neg (Fin q) = Fin (- q)"
| "fl_neg PInf = NInf"
| "fl_neg NInf = PInf"
| "fl_neg NaN = NaN"

fun fl_sgn :: "pyfloat \<Rightarrow> int" where
  "fl_sgn (Fin q) = sgn \<lfloor>q\<rfloor> + (if 0 < q \<and> q < 1 then 1 else 0)"
| "fl_sgn PInf = 1"
| "fl_sgn NInf = - 1"
| "fl_sgn NaN = 0"

fun fl_add :: "pyfloat \<Rightarrow> pyfloat \<Rightarrow> pyfloat" where
  "fl_add (Fin a) (Fin b) = to_double (a + b)"
| "fl_add NaN y = NaN"
| "fl_add x NaN = NaN"
| "fl_add PInf NInf = NaN"
| "fl_add NInf PInf = NaN"
| "fl_add PInf y = PInf"
| "fl_add NInf y = NInf"
| "fl_add x PInf = PInf"
| "fl_add x NInf = NInf"

fun fl_mul :: "pyfloat \<Rightarrow> pyfloat \<Rightarrow> pyfloat" where
  "fl_mul (Fin a) (Fin b) = to_double (a * b)"
| "fl_mul NaN y = NaN"
| "fl_mul x NaN = NaN"
| "fl_mul x y = (let s = fl_sgn x * fl_sgn y
                 in if s = 0 then NaN else if 0 < s then PInf else NInf)"

fun fl_div :: "pyfloat \<Rightarrow> pyfloat \<Rightarrow> pyfloat" where
  \<comment> \<open>the quotient by a divisor that is not zero\<close>
  "fl_div (Fin a) (Fin b) = to_double (a / b)"
| "fl_div NaN y = NaN"
| "fl_div x NaN = NaN"
| "fl_div (Fin a) y = Fin 0"
| "fl_div x (Fin b) = (if 0 < fl_sgn x * fl_sgn (Fin b) then PInf else NInf)"
| "fl_div x y = NaN"

definition py_truediv :: "pyfloat \<Rightarrow> pyfloat \<Rightarrow> py_error + pyfloat" where
  \<comment> \<open>Python's \<^verbatim>\<open>/\<close>: a zero divisor raises\<close>
  "py_truediv x y = (if y = Fin 0 then Inl ZeroDivisionError else Inr (fl_div x y))"

fun fl_less :: "pyfloat \<Rightarrow> pyfloat \<Rightarrow> bool" where
  "fl_less (Fin a) (Fin b) = (a < b)"
| "fl_less NaN y = False"
| "fl_less x NaN = False"
| "fl_less x NInf = False"
| "fl_less PInf y = False"
| "fl_less x y = True"

definition py_gt :: "pyfloat \<Rightarrow> pyfloat \<Rightarrow> bool" where
  "py_gt x y = fl_less y x"

definition pow10 :: "int \<Rightarrow> rat" where
  "pow10 k = (if 0 \<le> k then 10 ^ nat k else 1 / 10 ^ nat (- k))"

definition py_round :: "pyfloat \<Rightarrow> nat \<Rightarrow> pyfloat" where
  \<comment> \<open>\<^verbatim>\<open>round(x, ndigits)\<close> for \<open>ndigits\<close> 2 and 3: the exact value is rounded to that many
     decimals, a tie to the even digit, and the decimal is read back as a binary64 number;
     an infinity or a NaN is returned as it is. (CPython raises OverflowError when reading
     back overflows, which no binary64 input can cause: one of \<open>2^52\<close> or more is an
     integer and rounds to itself.)\<close>
  "py_round x ndigits = (case x of
       Fin q \<Rightarrow> to_double (of_int (rne (q * 10 ^ ndigits)) / 10 ^ ndigits)
     | _ \<Rightarrow> x)"

subsection \<open>\<^verbatim>\<open>float(str)\<close>\<close>

text \<open>
  A string is a list of 8-bit characters, read as the code points U+0000 to U+00FF
  (Kubernetes quantities are ASCII). \<^verbatim>\<open>float\<close> strips white space at both ends (for these
  code points: 9 to 13, 32, 133 and 160), accepts an underscore between two digits, then
  reads an optional sign followed by either a decimal number with an optional exponent
  or, in any letter case, \<^verbatim>\<open>inf\<close>, \<^verbatim>\<open>infinity\<close> or \<^verbatim>\<open>nan\<close>; the whole string must be used
  up. The decimal is rounded correctly to binary64 and overflows to an infinity.
\<close>

definition is_space :: "char \<Rightarrow> bool" where
  "is_space c = (of_char c \<in> set [9, 10, 11, 12, 13, 32, 133, 160 :: nat])"

definition is_digit :: "char \<Rightarrow> bool" where
  "is_digit c = (48 \<le> (of_char c :: nat) \<and> (of_char c :: nat) \<le> 57)"

definition to_lower :: "char \<Rightarrow> char" where
  "to_lower c = (if 65 \<le> (of_char c :: nat) \<and> (of_char c :: nat) \<le> 90
                 then char_of (of_char c + 32 :: nat) else c)"

definition strip :: "string \<Rightarrow> string" where
  "strip s = rev (dropWhile is_space (rev (dropWhile is_space s)))"

fun underscores_ok :: "char \<Rightarrow> string \<Rightarrow> bool" where
  \<comment> \<open>the first argument is the character before; an underscore stands after a digit
     and before a digit\<close>
  "underscores_ok prev [] = (prev \<noteq> CHR ''_'')"
| "underscores_ok prev (c # cs) =
     (if c = CHR ''_'' then is_digit prev \<and> underscores_ok c cs
      else if prev = CHR ''_'' then is_digit c \<and> underscores_ok c cs
      else underscores_ok c cs)"

definition digits_val :: "string \<Rightarrow> int" where
  "digits_val ds = foldl (\<lambda>n c. 10 * n + (of_char c - 48)) 0 ds"

definition parse_exponent :: "string \<Rightarrow> int option" where
  \<comment> \<open>what follows the mantissa: nothing, or \<^verbatim>\<open>e\<close>, an optional sign and digits\<close>
  "parse_exponent r = (case r of
       [] \<Rightarrow> Some 0
     | c # r' \<Rightarrow>
         if c = CHR ''e'' \<or> c = CHR ''E'' then
           (case r' of
              [] \<Rightarrow> None
            | s # ds \<Rightarrow>
                if s = CHR ''-'' then
                  (if ds \<noteq> [] \<and> list_all is_digit ds then Some (- digits_val ds) else None)
                else if s = CHR ''+'' then
                  (if ds \<noteq> [] \<and> list_all is_digit ds then Some (digits_val ds) else None)
                else
                  (if list_all is_digit r' then Some (digits_val r') else None))
         else None)"

definition parse_decimal :: "string \<Rightarrow> rat option" where
  "parse_decimal t =
     (let ip = takeWhile is_digit t; r1 = dropWhile is_digit t;
          dot = (r1 \<noteq> [] \<and> hd r1 = CHR ''.'');
          fp = (if dot then takeWhile is_digit (tl r1) else []);
          r2 = (if dot then dropWhile is_digit (tl r1) else r1)
      in if ip = [] \<and> fp = [] then None
         else (case parse_exponent r2 of
                 None \<Rightarrow> None
               | Some ex \<Rightarrow>
                   Some (of_int (digits_val (ip @ fp)) * pow10 (ex - int (length fp)))))"

definition parse_inf_or_nan :: "string \<Rightarrow> pyfloat option" where
  "parse_inf_or_nan t =
     (let l = map to_lower t
      in if l = ''inf'' \<or> l = ''infinity'' then Some PInf
         else if l = ''nan'' then Some NaN else None)"

definition float_from_string_inner :: "string \<Rightarrow> py_error + pyfloat" where
  "float_from_string_inner t =
     (let neg = (t \<noteq> [] \<and> hd t = CHR ''-'');
          body = (if t \<noteq> [] \<and> (hd t = CHR ''-'' \<or> hd t = CHR ''+'') then tl t else t)
      in case parse_decimal body of
           Some q \<Rightarrow> Inr (to_double (if neg then - q else q))
         | None \<Rightarrow>
             (case parse_inf_or_nan body of
                Some v \<Rightarrow> Inr (if neg then fl_neg v else v)
              | None \<Rightarrow> Inl ValueError))"

definition py_float :: "string \<Rightarrow> py_error + pyfloat" where
  "py_float s =
     (let t = strip s
      in if CHR ''_'' \<in> set t
         then (if underscores_ok (CHR 0x00) t
               then float_from_string_inner (filter (\<lambda>c. c \<noteq> CHR ''_'') t)
               else Inl ValueError)
         else float_from_string_inner t)"

section \<open>\<^verbatim>\<open>parse_quantity\<close>\<close>

text \<open>
  \<^verbatim>\<open>
  def parse_quantity(quantity_str):
      if not quantity_str:
          return 0
      if quantity_str.endswith('m'):
          return float(quantity_str[:-1]) / 1000
      elif quantity_str.endswith('n'):
          return float(quantity_str[:-1]) / 1_000_000_000
      units = {'Ki': 1024, 'Mi': 1024**2, 'Gi': 1024**3, 'Ti': 1024**4,
               'K': 1000, 'M': 1000**2, 'G': 1000**3, 'T': 1000**4}
      for suffix, multiplier in units.items():
          if quantity_str.endswith(suffix):
              return float(quantity_str[:-len(suffix)]) * multiplier
      return float(quantity_str)
  \<close>
  The argument is \<open>None\<close> for Python's \<^verbatim>\<open>None\<close>. A dictionary iterates in insertion
  order, so \<open>units\<close> is the list of its items in the order written. The loop variable
  \<^verbatim>\<open>suffix\<close> is \<open>sfx\<close> here.
\<close>

definition endswith :: "string \<Rightarrow> string \<Rightarrow> bool" where
  "endswith s sfx =
     (length sfx \<le> length s \<and> drop (length s - length sfx) s = sfx)"

definition units :: "(string \<times> int) list" where
  "units = [(''Ki'', 1024), (''Mi'', 1024 ^ 2), (''Gi'', 1024 ^ 3), (''Ti'', 1024 ^ 4),
            (''K'', 1000), (''M'', 1000 ^ 2), (''G'', 1000 ^ 3), (''T'', 1000 ^ 4)]"

fun scan_units :: "(string \<times> int) list \<Rightarrow> string \<Rightarrow> py_error + pyfloat" where
  \<comment> \<open>the \<^verbatim>\<open>for\<close> loop over the items still to visit, and the final \<^verbatim>\<open>return\<close>\<close>
  "scan_units [] s = py_float s"
| "scan_units ((sfx, multiplier) # rest) s =
     (if endswith s sfx
      then bnd (py_float (take (length s - length sfx) s))
             (\<lambda>x. Inr (fl_mul x (int_to_float multiplier)))
      else scan_units rest s)"

definition parse_quantity :: "string option \<Rightarrow> py_error + pyfloat" where
  "parse_quantity quantity_str = (case quantity_str of
       None \<Rightarrow> Inr (Fin 0)
     | Some s \<Rightarrow>
         if s = [] then Inr (Fin 0)
         else if endswith s ''m''
           then bnd (py_float (take (length s - 1) s)) (\<lambda>x. py_truediv x (int_to_float 1000))
         else if endswith s ''n''
           then bnd (py_float (take (length s - 1) s))
                  (\<lambda>x. py_truediv x (int_to_float 1000000000))
         else scan_units units s)"

section \<open>The aggregations\<close>

subsection \<open>Inputs\<close>

text \<open>
  What the two Kubernetes calls return, as far as the loops read it: an item of the node
  metrics listing has \<^verbatim>\<open>item['metadata']['name']\<close>, \<^verbatim>\<open>item['usage']['cpu']\<close> and
  \<^verbatim>\<open>item['usage']['memory']\<close>; the listing itself may lack the key \<^verbatim>\<open>'items'\<close>; a node has
  \<^verbatim>\<open>node.metadata.name\<close> and the dictionary \<^verbatim>\<open>node.status.capacity\<close>.
\<close>

record node_metrics_item =
  metadata_name :: string
  usage_cpu :: string
  usage_memory :: string

record nodes_metrics =
  items :: "node_metrics_item list option"

record k8s_node =
  node_metadata_name :: string
  status_capacity :: "string \<rightharpoonup> string"

record container_item =
  container_name :: string
  container_usage_cpu :: string
  container_usage_memory :: string

record pod_metrics_item =
  pod_metadata_name :: string
  pod_metadata_namespace :: string
  pod_containers :: "container_item list option"

definition dict_get :: "('k \<rightharpoonup> 'v) \<Rightarrow> 'k \<Rightarrow> 'v \<Rightarrow> 'v" where
  \<comment> \<open>\<^verbatim>\<open>d.get(key, default)\<close>\<close>
  "dict_get d k dflt = (case d k of None \<Rightarrow> dflt | Some v \<Rightarrow> v)"

definition get_items :: "'a list option \<Rightarrow> 'a list" where
  \<comment> \<open>\<^verbatim>\<open>d.get('items', [])\<close> and \<^verbatim>\<open>item.get('containers', [])\<close>\<close>
  "get_items l = (case l of None \<Rightarrow> [] | Some xs \<Rightarrow> xs)"

definition node_capacities :: "k8s_node list \<Rightarrow> (string \<rightharpoonup> (string \<rightharpoonup> string))" where
  \<comment> \<open>\<^verbatim>\<open>{node.metadata.name: node.status.capacity for node in nodes.items}\<close>: a later
     node of the same name replaces an earlier one\<close>
  "node_capacities nodes =
     foldl (\<lambda>d node. d(node_metadata_name node \<mapsto> status_capacity node)) Map.empty nodes"

definition capacity_str :: "(string \<rightharpoonup> (string \<rightharpoonup> string)) \<Rightarrow> string \<Rightarrow> string \<Rightarrow> string" where
  \<comment> \<open>\<^verbatim>\<open>node_capacities.get(node_name, {}).get(key, '0')\<close> for the key \<^verbatim>\<open>'cpu'\<close> or
     \<^verbatim>\<open>'memory'\<close>\<close>
  "capacity_str caps node_name key = dict_get (dict_get caps node_name Map.empty) key ''0''"

definition utilization :: "pyfloat \<Rightarrow> pyfloat \<Rightarrow> py_error + pyfloat" where
  \<comment> \<open>\<^verbatim>\<open>(usage / capacity * 100) if capacity > 0 else 0\<close>\<close>
  "utilization usage capacity =
     (if py_gt capacity (Fin 0)
      then bnd (py_truediv usage capacity) (\<lambda>r. Inr (fl_mul r (int_to_float 100)))
      else Inr (Fin 0))"

subsection \<open>Cluster CPU\<close>

text \<open>
  \<^verbatim>\<open>
  total_usage = 0
  total_capacity = 0
  nodes = v1.list_node()
  node_capacities = {node.metadata.name: node.status.capacity for node in nodes.items}
  node_details = []
  for item in nodes_metrics.get('items', []):
      node_name = item['metadata']['name']
      usage = parse_quantity(item['usage']['cpu'])
      capacity = parse_quantity(node_capacities.get(node_name, {}).get('cpu', '0'))
      total_usage += usage
      total_capacity += capacity
      node_details.append({
          "node": node_name,
          "usage_cores": round(usage, 3),
          "capacity_cores": round(capacity, 3),
          "utilization_percent": round((usage / capacity * 100) if capacity > 0 else 0, 2)
      })
  return {
      "cluster_cpu": {
          "total_usage_cores": round(total_usage, 3),
          "total_capacity_cores": round(total_capacity, 3),
          "utilization_percent": round((total_usage / total_capacity * 100) if total_capacity > 0 else 0, 2)
      },
      "nodes": node_details
  }
  \<close>
  The state of the loop is \<open>(total_usage, total_capacity, node_details)\<close>.
\<close>

record cpu_node_detail =
  node :: string
  usage_cores :: pyfloat
  capacity_cores :: pyfloat
  utilization_percent :: pyfloat

record cluster_cpu =
  total_usage_cores :: pyfloat
  total_capacity_cores :: pyfloat
  utilization_percent :: pyfloat

record cluster_cpu_result =
  cluster_cpu :: cluster_cpu
  nodes :: "cpu_node_detail list"

definition cpu_body ::
  "(string \<rightharpoonup> (string \<rightharpoonup> string)) \<Rightarrow> node_metrics_item \<Rightarrow>
   pyfloat \<times> pyfloat \<times> cpu_node_detail list \<Rightarrow>
   py_error + (pyfloat \<times> pyfloat \<times> cpu_node_detail list)" where
  "cpu_body caps item st = (case st of (total_usage, total_capacity, node_details) \<Rightarrow>
     (let node_name = metadata_name item in
      bnd (parse_quantity (Some (usage_cpu item))) (\<lambda>usage.
      bnd (parse_quantity (Some (capacity_str caps node_name ''cpu'')))
        (\<lambda>capacity.
      bnd (utilization usage capacity) (\<lambda>u.
        Inr (fl_add total_usage usage, fl_add total_capacity capacity,
             node_details @
             [\<lparr>node = node_name,
               usage_cores = py_round usage 3,
               capacity_cores = py_round capacity 3,
               cpu_node_detail.utilization_percent = py_round u 2\<rparr>]))))))"

fun cpu_loop ::
  "(string \<rightharpoonup> (string \<rightharpoonup> string)) \<Rightarrow> node_metrics_item list \<Rightarrow>
   pyfloat \<times> pyfloat \<times> cpu_node_detail list \<Rightarrow>
   py_error + (pyfloat \<times> pyfloat \<times> cpu_node_detail list)" where
  "cpu_loop caps [] st = Inr st"
| "cpu_loop caps (item # rest) st =
     (case cpu_body caps item st of Inl e \<Rightarrow> Inl e | Inr st' \<Rightarrow> cpu_loop caps rest st')"

definition get_cluster_cpu :: "nodes_metrics \<Rightarrow> k8s_node list \<Rightarrow> py_error + cluster_cpu_result" where
  "get_cluster_cpu nm nodes_items =
     bnd (cpu_loop (node_capacities nodes_items) (get_items (items nm)) (Fin 0, Fin 0, []))
       (\<lambda>st. case st of (total_usage, total_capacity, node_details) \<Rightarrow>
          bnd (utilization total_usage total_capacity) (\<lambda>u.
            Inr \<lparr>cluster_cpu =
                   \<lparr>total_usage_cores = py_round total_usage 3,
                    total_capacity_cores = py_round total_capacity 3,
                    cluster_cpu.utilization_percent = py_round u 2\<rparr>,
                 nodes = node_details\<rparr>))"

subsection \<open>Cluster memory\<close>

text \<open>
  The same loop on \<^verbatim>\<open>item['usage']['memory']\<close> and the capacity key \<^verbatim>\<open>'memory'\<close>, with
  \<^verbatim>\<open>
      node_details.append({
          "node": node_name,
          "usage_gi": round(usage_bytes / (1024**3), 2),
          "capacity_gi": round(capacity_bytes / (1024**3), 2),
          "utilization_percent": round((usage_bytes / capacity_bytes * 100) if capacity_bytes > 0 else 0, 2)
      })
  return {
      "cluster_memory": {
          "total_usage_gi": round(total_usage / (1024**3), 2),
          "total_capacity_gi": round(total_capacity / (1024**3), 2),
          "utilization_percent": round((total_usage / total_capacity * 100) if total_capacity > 0 else 0, 2)
      },
      "nodes": node_details
  }
  \<close>
\<close>

record memory_node_detail =
  node :: string
  usage_gi :: pyfloat
  capacity_gi :: pyfloat
  utilization_percent :: pyfloat

record cluster_memory =
  total_usage_gi :: pyfloat
  total_capacity_gi :: pyfloat
  utilization_percent :: pyfloat

record cluster_memory_result =
  cluster_memory :: cluster_memory
  nodes :: "memory_node_detail list"

definition memory_body ::
  "(string \<rightharpoonup> (string \<rightharpoonup> string)) \<Rightarrow> node_metrics_item \<Rightarrow>
   pyfloat \<times> pyfloat \<times> memory_node_detail list \<Rightarrow>
   py_error + (pyfloat \<times> pyfloat \<times> memory_node_detail list)" where
  "memory_body caps item st = (case st of (total_usage, total_capacity, node_details) \<Rightarrow>
     (let node_name = metadata_name item in
      bnd (parse_quantity (Some (usage_memory item))) (\<lambda>usage_bytes.
      bnd (parse_quantity (Some (capacity_str caps node_name ''memory'')))
        (\<lambda>capacity_bytes.
      bnd (py_truediv usage_bytes (int_to_float (1024 ^ 3))) (\<lambda>ug.
      bnd (py_truediv capacity_bytes (int_to_float (1024 ^ 3))) (\<lambda>cg.
      bnd (utilization usage_bytes capacity_bytes) (\<lambda>u.
        Inr (fl_add total_usage usage_bytes, fl_add total_capacity capacity_bytes,
             node_details @
             [\<lparr>memory_node_detail.node = node_name,
               usage_gi = py_round ug 2,
               capacity_gi = py_round cg 2,
               memory_node_detail.utilization_percent = py_round u 2\<rparr>]))))))))"

fun memory_loop ::
  "(string \<rightharpoonup> (string \<rightharpoonup> string)) \<Rightarrow> node_metrics_item list \<Rightarrow>
   pyfloat \<times> pyfloat \<times> memory_node_detail list \<Rightarrow>
   py_error + (pyfloat \<times> pyfloat \<times> memory_node_detail list)" where
  "memory_loop caps [] st = Inr st"
| "memory_loop caps (item # rest) st =
     (case memory_body caps item st of Inl e \<Rightarrow> Inl e | Inr st' \<Rightarrow> memory_loop caps rest st')"

definition get_cluster_memory ::
  "nodes_metrics \<Rightarrow> k8s_node list \<Rightarrow> py_error + cluster_memory_result" where
  "get_cluster_memory nm nodes_items =
     bnd (memory_loop (node_capacities nodes_items) (get_items (items nm)) (Fin 0, Fin 0, []))
       (\<lambda>st. case st of (total_usage, total_capacity, node_details) \<Rightarrow>
          bnd (py_truediv total_usage (int_to_float (1024 ^ 3))) (\<lambda>ug.
          bnd (py_truediv total_capacity (int_to_float (1024 ^ 3))) (\<lambda>cg.
          bnd (utilization total_usage total_capacity) (\<lambda>u.
            Inr \<lparr>cluster_memory =
                   \<lparr>total_usage_gi = py_round ug 2,
                    total_capacity_gi = py_round cg 2,
                    cluster_memory.utilization_percent = py_round u 2\<rparr>,
                 cluster_memory_result.nodes = node_details\<rparr>))))"

subsection \<open>Pod metrics\<close>

text \<open>
  The \<^verbatim>\<open>get_pod_metrics\<close> branch of \<^verbatim>\<open>call_tool\<close> in \<^verbatim>\<open>src/k8s_mcp_server.py\<close>, from the
  listing \<^verbatim>\<open>items\<close> on:
  \<^verbatim>\<open>
  result = []
  for item in items:
      pod_name = item['metadata']['name']
      pod_ns = item['metadata']['namespace']
      containers_metrics = []
      total_cpu = 0
      total_mem = 0
      for container in item.get('containers', []):
          cpu = parse_quantity(container['usage']['cpu'])
          mem = parse_quantity(container['usage']['memory'])
          total_cpu += cpu
          total_mem += mem
          containers_metrics.append({
              "name": container['name'],
              "cpu_cores": round(cpu, 3),
              "memory_mi": round(mem / (1024**2), 2)
          })
      result.append({
          "name": pod_name,
          "namespace": pod_ns,
          "total_cpu_cores": round(total_cpu, 3),
          "total_memory_mi": round(total_mem / (1024**2), 2),
          "containers": containers_metrics
      })
  return {"count": len(result), "pods": result}
  \<close>
\<close>

record container_metrics =
  name :: string
  cpu_cores :: pyfloat
  memory_mi :: pyfloat

record pod_metrics =
  name :: string
  namespace :: string
  total_cpu_cores :: pyfloat
  total_memory_mi :: pyfloat
  containers :: "container_metrics list"

record pod_metrics_result =
  count :: nat
  pods :: "pod_metrics list"

definition container_body ::
  "container_item \<Rightarrow> pyfloat \<times> pyfloat \<times> container_metrics list \<Rightarrow>
   py_error + (pyfloat \<times> pyfloat \<times> container_metrics list)" where
  "container_body container st = (case st of (total_cpu, total_mem, containers_metrics) \<Rightarrow>
     bnd (parse_quantity (Some (container_usage_cpu container))) (\<lambda>cpu.
     bnd (parse_quantity (Some (container_usage_memory container))) (\<lambda>mem.
     bnd (py_truediv mem (int_to_float (1024 ^ 2))) (\<lambda>mi.
       Inr (fl_add total_cpu cpu, fl_add total_mem mem,
            containers_metrics @
            [\<lparr>container_metrics.name = container_name container,
              cpu_cores = py_round cpu 3,
              memory_mi = py_round mi 2\<rparr>])))))"

fun container_loop ::
  "container_item list \<Rightarrow> pyfloat \<times> pyfloat \<times> container_metrics list \<Rightarrow>
   py_error + (pyfloat \<times> pyfloat \<times> container_metrics list)" where
  "container_loop [] st = Inr st"
| "container_loop (container # rest) st =
     (case container_body container st of Inl e \<Rightarrow> Inl e | Inr st' \<Rightarrow> container_loop rest st')"

definition pod_body :: "pod_metrics_item \<Rightarrow> pod_metrics list \<Rightarrow> py_error + pod_metrics list" where
  "pod_body item result =
     bnd (container_loop (get_items (pod_containers item)) (Fin 0, Fin 0, []))
       (\<lambda>st. case st of (total_cpu, total_mem, containers_metrics) \<Rightarrow>
          bnd (py_truediv total_mem (int_to_float (1024 ^ 2))) (\<lambda>mi.
            Inr (result @
                 [\<lparr>pod_metrics.name = pod_metadata_name item,
                   namespace = pod_metadata_namespace item,
                   total_cpu_cores = py_round total_cpu 3,
                   total_memory_mi = py_round mi 2,
                   containers = containers_metrics\<rparr>])))"

fun pod_loop :: "pod_metrics_item list \<Rightarrow> pod_metrics list \<Rightarrow> py_error + pod_metrics list" where
  "pod_loop [] result = Inr result"
| "pod_loop (item # rest) result =
     (case pod_body item result of Inl e \<Rightarrow> Inl e | Inr result' \<Rightarrow> pod_loop rest result')"

definition get_pod_metrics :: "pod_metrics_item list \<Rightarrow> py_error + pod_metrics_result" where
  "get_pod_metrics pod_items =
     bnd (pod_loop pod_items []) (\<lambda>result. Inr \<lparr>count = length result, pods = result\<rparr>)"

section \<open>Notions used in the statements\<close>

text \<open>
  \<open>usage_parses sel its us\<close>: the usage strings of the items \<open>its\<close> (read by \<open>sel\<close>) all
  parse, and \<open>us\<close> is the list of their unrounded values, in order. \<open>capacity_parses\<close> is
  the same for the capacity strings the loop looks up under \<open>key\<close>. Together the three
  lists are the samples (subject, usage, capacity) of the specification.
\<close>

definition usage_parses ::
  "(node_metrics_item \<Rightarrow> string) \<Rightarrow> node_metrics_item list \<Rightarrow> pyfloat list \<Rightarrow> bool" where
  "usage_parses sel its us =
     list_all2 (\<lambda>item u. parse_quantity (Some (sel item)) = Inr u) its us"

definition capacity_parses ::
  "(string \<rightharpoonup> (string \<rightharpoonup> string)) \<Rightarrow> string \<Rightarrow> node_metrics_item list \<Rightarrow>
   pyfloat list \<Rightarrow> bool" where
  "capacity_parses caps key its cs =
     list_all2
       (\<lambda>item c. parse_quantity (Some (capacity_str caps (metadata_name item) key)) = Inr c)
       its cs"

definition util :: "pyfloat \<Rightarrow> pyfloat \<Rightarrow> pyfloat" where
  \<comment> \<open>the value of \<open>utilization\<close>, which never raises\<close>
  "util u c = (if py_gt c (Fin 0) then fl_mul (fl_div u c) (Fin 100) else Fin 0)"

definition cpu_detail :: "string \<Rightarrow> pyfloat \<Rightarrow> pyfloat \<Rightarrow> cpu_node_detail" where
  \<comment> \<open>the record the CPU loop appends for a node of usage \<open>u\<close> and capacity \<open>c\<close>\<close>
  "cpu_detail n u c =
     \<lparr>cpu_node_detail.node = n, usage_cores = py_round u 3, capacity_cores = py_round c 3,
      cpu_node_detail.utilization_percent = py_round (util u c) 2\<rparr>"

definition memory_detail :: "string \<Rightarrow> pyfloat \<Rightarrow> pyfloat \<Rightarrow> memory_node_detail" where
  \<comment> \<open>the record the memory loop appends for a node of usage \<open>u\<close> and capacity \<open>c\<close> bytes\<close>
  "memory_detail n u c =
     \<lparr>memory_node_detail.node = n,
      usage_gi = py_round (fl_div u (Fin 1073741824)) 2,
      capacity_gi = py_round (fl_div c (Fin 1073741824)) 2,
      memory_node_detail.utilization_percent = py_round (util u c) 2\<rparr>"

text \<open>
  For the error behaviour of \<^verbatim>\<open>parse_quantity\<close>: the string left for \<^verbatim>\<open>float\<close> after the
  suffix handling, and the strings \<^verbatim>\<open>float\<close> accepts.
\<close>

definition remainder :: "string \<Rightarrow> string" where
  \<comment> \<open>the string without the first suffix that matches, in the order of the code; the
     whole string when none matches\<close>
  "remainder s =
     (if endswith s ''m'' \<or> endswith s ''n'' then take (length s - 1) s
      else case find (endswith s) (map fst units) of
             Some sfx \<Rightarrow> take (length s - length sfx) s
           | None \<Rightarrow> s)"

definition is_float_literal :: "string \<Rightarrow> bool" where
  "is_float_literal s = (case py_float s of Inl e \<Rightarrow> False | Inr v \<Rightarrow> True)"

text \<open>
  The suffixes the parser knows, and their case variants: the strings that equal a known
  suffix when letter case is ignored and are not known suffixes themselves.
\<close>

definition to_upper :: "char \<Rightarrow> char" where
  "to_upper c = (if 97 \<le> (of_char c :: nat) \<and> (of_char c :: nat) \<le> 122
                 then char_of (of_char c - 32 :: nat) else c)"

fun case_forms :: "string \<Rightarrow> string list" where
  "case_forms [] = [[]]"
| "case_forms (c # cs) = concat (map (\<lambda>r. [to_lower c # r, to_upper c # r]) (case_forms cs))"

definition suffix_table :: "string list" where
  "suffix_table = ''m'' # ''n'' # map fst units"

definition case_variants :: "string list" where
  "case_variants =
     filter (\<lambda>v. v \<notin> set suffix_table) (remdups (concat (map case_forms suffix_table)))"

text \<open>
  The characters that can end a string \<^verbatim>\<open>float\<close> accepts, white space and underscores
  apart: a digit, the decimal point, or the last letter of \<^verbatim>\<open>inf\<close>, \<^verbatim>\<open>infinity\<close> or \<^verbatim>\<open>nan\<close>
  in either case.
\<close>

definition float_end :: "char \<Rightarrow> bool" where
  "float_end c = (is_digit c \<or> c = CHR ''.'' \<or>
                  to_lower c = CHR ''f'' \<or> to_lower c = CHR ''y'' \<or> to_lower c = CHR ''n'')"

section \<open>Constants and small facts\<close>

lemma endswith_suffix: "endswith s suf = suffix suf s"
  unfolding endswith_def suffix_def
  by (metis append_eq_conv_conj append_take_drop_id diff_add_inverse2 length_append length_drop
      le_add2 diff_diff_cancel)

text \<open>The integer operands of the code are binary64 numbers themselves.\<close>

lemma int_to_float_100: "int_to_float 100 = Fin 100" by code_simp
lemma int_to_float_K: "int_to_float 1000 = Fin 1000" by code_simp
lemma int_to_float_M: "int_to_float 1000000 = Fin 1000000" by code_simp
lemma int_to_float_G: "int_to_float 1000000000 = Fin 1000000000" by code_simp
lemma int_to_float_T: "int_to_float 1000000000000 = Fin 1000000000000" by code_simp
lemma int_to_float_Ki: "int_to_float 1024 = Fin 1024" by code_simp
lemma int_to_float_Mi: "int_to_float 1048576 = Fin 1048576" by code_simp
lemma int_to_float_Gi: "int_to_float 1073741824 = Fin 1073741824" by code_simp
lemma int_to_float_Ti: "int_to_float 1099511627776 = Fin 1099511627776" by code_simp

lemmas int_to_float_consts = int_to_float_100 int_to_float_K int_to_float_M int_to_float_G
  int_to_float_T int_to_float_Ki int_to_float_Mi int_to_float_Gi int_to_float_Ti

lemma py_round_zero: "py_round (Fin 0) n = Fin 0"
  by (simp add: py_round_def to_double_def rne_def)

section \<open>The quantity parser\<close>

lemma parse_quantity_chain:
  "parse_quantity (Some s) =
     (if s = [] then Inr (Fin 0)
      else if suffix ''m'' s
        then bnd (py_float (take (length s - 1) s)) (\<lambda>x. Inr (fl_div x (Fin 1000)))
      else if suffix ''n'' s
        then bnd (py_float (take (length s - 1) s)) (\<lambda>x. Inr (fl_div x (Fin 1000000000)))
      else if suffix ''Ki'' s
        then bnd (py_float (take (length s - 2) s)) (\<lambda>x. Inr (fl_mul x (Fin 1024)))
      else if suffix ''Mi'' s
        then bnd (py_float (take (length s - 2) s)) (\<lambda>x. Inr (fl_mul x (Fin 1048576)))
      else if suffix ''Gi'' s
        then bnd (py_float (take (length s - 2) s)) (\<lambda>x. Inr (fl_mul x (Fin 1073741824)))
      else if suffix ''Ti'' s
        then bnd (py_float (take (length s - 2) s)) (\<lambda>x. Inr (fl_mul x (Fin 1099511627776)))
      else if suffix ''K'' s
        then bnd (py_float (take (length s - 1) s)) (\<lambda>x. Inr (fl_mul x (Fin 1000)))
      else if suffix ''M'' s
        then bnd (py_float (take (length s - 1) s)) (\<lambda>x. Inr (fl_mul x (Fin 1000000)))
      else if suffix ''G'' s
        then bnd (py_float (take (length s - 1) s)) (\<lambda>x. Inr (fl_mul x (Fin 1000000000)))
      else if suffix ''T'' s
        then bnd (py_float (take (length s - 1) s)) (\<lambda>x. Inr (fl_mul x (Fin 1000000000000)))
      else py_float s)"
  by (simp add: parse_quantity_def units_def endswith_suffix int_to_float_consts py_truediv_def
      numeral_2_eq_2 split del: if_split cong: if_cong)

lemma parse_5Ki: "parse_quantity (Some ''5Ki'') = Inr (Fin 5120)" by code_simp
lemma parse_5K: "parse_quantity (Some ''5K'') = Inr (Fin 5000)" by code_simp
lemma parse_250m: "parse_quantity (Some ''250m'') = Inr (Fin (1 / 4))" by code_simp
lemma parse_1e9n: "parse_quantity (Some ''1000000000n'') = Inr (Fin 1)" by code_simp
lemma parse_4: "parse_quantity (Some ''4'') = Inr (Fin 4)" by code_simp

text \<open>
  Claim C1. \<^verbatim>\<open>parse_quantity\<close> follows a strict precedence: \<^verbatim>\<open>None\<close> and the empty string
  give 0; else a trailing \<^verbatim>\<open>m\<close> is stripped and the parsed remainder divided by 1000; else
  a trailing \<^verbatim>\<open>n\<close> is stripped and the remainder divided by 1,000,000,000; else the
  suffixes \<^verbatim>\<open>Ki, Mi, Gi, Ti, K, M, G, T\<close> are tried in this order, the first that matches
  is stripped as a whole and the remainder multiplied by 1024, 1024^2, 1024^3, 1024^4,
  1000, 1000^2, 1000^3, 1000^4; else the whole string is parsed as a float. In
  particular \<^verbatim>\<open>5Ki\<close> gives 5120, \<^verbatim>\<open>5K\<close> 5000, \<^verbatim>\<open>250m\<close> 0.25, \<^verbatim>\<open>1000000000n\<close> 1.0, the
  empty string 0 and \<^verbatim>\<open>4\<close> 4.0.
\<close>

theorem parse_quantity_precedence:
  "parse_quantity None = Inr (Fin 0) \<and>
   parse_quantity (Some s) =
     (if s = [] then Inr (Fin 0)
      else if suffix ''m'' s
        then bnd (py_float (take (length s - 1) s)) (\<lambda>x. Inr (fl_div x (Fin 1000)))
      else if suffix ''n'' s
        then bnd (py_float (take (length s - 1) s)) (\<lambda>x. Inr (fl_div x (Fin 1000000000)))
      else if suffix ''Ki'' s
        then bnd (py_float (take (length s - 2) s)) (\<lambda>x. Inr (fl_mul x (Fin 1024)))
      else if suffix ''Mi'' s
        then bnd (py_float (take (length s - 2) s)) (\<lambda>x. Inr (fl_mul x (Fin 1048576)))
      else if suffix ''Gi'' s
        then bnd (py_float (take (length s - 2) s)) (\<lambda>x. Inr (fl_mul x (Fin 1073741824)))
      else if suffix ''Ti'' s
        then bnd (py_float (take (length s - 2) s)) (\<lambda>x. Inr (fl_mul x (Fin 1099511627776)))
      else if suffix ''K'' s
        then bnd (py_float (take (length s - 1) s)) (\<lambda>x. Inr (fl_mul x (Fin 1000)))
      else if suffix ''M'' s
        then bnd (py_float (take (length s - 1) s)) (\<lambda>x. Inr (fl_mul x (Fin 1000000)))
      else if suffix ''G'' s
        then bnd (py_float (take (length s - 1) s)) (\<lambda>x. Inr (fl_mul x (Fin 1000000000)))
      else if suffix ''T'' s
        then bnd (py_float (take (length s - 1) s)) (\<lambda>x. Inr (fl_mul x (Fin 1000000000000)))
      else py_float s) \<and>
   parse_quantity (Some ''5Ki'') = Inr (Fin 5120) \<and>
   parse_quantity (Some ''5K'') = Inr (Fin 5000) \<and>
   parse_quantity (Some ''250m'') = Inr (Fin (1 / 4)) \<and>
   parse_quantity (Some ''1000000000n'') = Inr (Fin 1) \<and>
   parse_quantity (Some []) = Inr (Fin 0) \<and>
   parse_quantity (Some ''4'') = Inr (Fin 4)"
proof -
  have "parse_quantity None = Inr (Fin 0)" and "parse_quantity (Some []) = Inr (Fin 0)"
    by (simp_all add: parse_quantity_def)
  then show ?thesis
    using parse_quantity_chain [of s] parse_5Ki parse_5K parse_250m parse_1e9n parse_4
    by (simp only: simp_thms)
qed

section \<open>The aggregations on an empty listing\<close>

text \<open>
  Claim C8. Aggregating an empty sample list is not an error: the result has total usage
  0, total capacity 0, utilization 0 and an empty per-subject list. The listing is empty
  when \<^verbatim>\<open>'items'\<close> is the empty list and when the key is absent.
\<close>

theorem empty_listing:
  "get_cluster_cpu \<lparr>items = Some []\<rparr> ns =
     Inr \<lparr>cluster_cpu = \<lparr>total_usage_cores = Fin 0, total_capacity_cores = Fin 0,
                          cluster_cpu.utilization_percent = Fin 0\<rparr>,
          nodes = []\<rparr> \<and>
   get_cluster_cpu \<lparr>items = None\<rparr> ns =
     Inr \<lparr>cluster_cpu = \<lparr>total_usage_cores = Fin 0, total_capacity_cores = Fin 0,
                          cluster_cpu.utilization_percent = Fin 0\<rparr>,
          nodes = []\<rparr> \<and>
   get_cluster_memory \<lparr>items = Some []\<rparr> ns =
     Inr \<lparr>cluster_memory = \<lparr>total_usage_gi = Fin 0, total_capacity_gi = Fin 0,
                             cluster_memory.utilization_percent = Fin 0\<rparr>,
          cluster_memory_result.nodes = []\<rparr> \<and>
   get_cluster_memory \<lparr>items = None\<rparr> ns =
     Inr \<lparr>cluster_memory = \<lparr>total_usage_gi = Fin 0, total_capacity_gi = Fin 0,
                             cluster_memory.utilization_percent = Fin 0\<rparr>,
          cluster_memory_result.nodes = []\<rparr>"
  by (simp add: get_cluster_cpu_def get_cluster_memory_def get_items_def bnd_def utilization_def
      py_gt_def py_round_zero int_to_float_consts py_truediv_def to_double_def)

section \<open>The cluster CPU loop in closed form\<close>

lemma py_gt_zero_nonzero: "py_gt c (Fin 0) \<Longrightarrow> c \<noteq> Fin 0"
  by (auto simp: py_gt_def)

lemma utilization_util: "utilization u c = Inr (util u c)"
  by (simp add: utilization_def util_def bnd_def py_truediv_def int_to_float_100 py_gt_zero_nonzero)

lemma float_from_string_inner_cases:
  "float_from_string_inner t = Inl ValueError \<or> (\<exists>v. float_from_string_inner t = Inr v)"
  by (simp add: float_from_string_inner_def Let_def split: option.splits)

lemma py_float_cases: "py_float s = Inl ValueError \<or> (\<exists>v. py_float s = Inr v)"
  using float_from_string_inner_cases by (simp add: py_float_def Let_def)

lemma bnd_cases:
  assumes "r = Inl ValueError \<or> (\<exists>v. r = Inr v)"
    and "\<And>x. f x = Inl ValueError \<or> (\<exists>v. f x = Inr v)"
  shows "bnd r f = Inl ValueError \<or> (\<exists>v. bnd r f = Inr v)"
proof (cases r)
  case (Inl e)
  with assms(1) show ?thesis by (simp add: bnd_def)
next
  case (Inr x)
  with assms(2) [of x] show ?thesis by (simp add: bnd_def)
qed

lemma scan_units_cases:
  "scan_units us s = Inl ValueError \<or> (\<exists>v. scan_units us s = Inr v)"
proof (induction us s rule: scan_units.induct)
  case (1 s)
  then show ?case by (simp add: py_float_cases)
next
  case (2 sfx multiplier rest s)
  show ?case
  proof (cases "endswith s sfx")
    case True
    then show ?thesis by (simp add: bnd_cases py_float_cases)
  next
    case False
    with 2 show ?thesis by simp
  qed
qed

lemma parse_quantity_cases:
  "parse_quantity q = Inl ValueError \<or> (\<exists>v. parse_quantity q = Inr v)"
proof (cases q)
  case None
  then show ?thesis by (simp add: parse_quantity_def)
next
  case (Some s)
  have div: "py_truediv x (int_to_float 1000) = Inr (fl_div x (Fin 1000))"
    "py_truediv x (int_to_float 1000000000) = Inr (fl_div x (Fin 1000000000))" for x
    by (simp_all add: py_truediv_def int_to_float_consts)
  consider "s = []" | "s \<noteq> []" "endswith s ''m''"
    | "s \<noteq> []" "\<not> endswith s ''m''" "endswith s ''n''"
    | "s \<noteq> []" "\<not> endswith s ''m''" "\<not> endswith s ''n''"
    by blast
  then show ?thesis
  proof cases
    case 1
    then show ?thesis by (simp add: Some parse_quantity_def)
  next
    case 2
    then show ?thesis by (simp add: Some parse_quantity_def div bnd_cases py_float_cases)
  next
    case 3
    then show ?thesis by (simp add: Some parse_quantity_def div bnd_cases py_float_cases)
  next
    case 4
    then show ?thesis by (simp add: Some parse_quantity_def scan_units_cases)
  qed
qed

lemma cpu_body_ok:
  "parse_quantity (Some (usage_cpu item)) = Inr u \<Longrightarrow>
   parse_quantity (Some (capacity_str caps (metadata_name item) ''cpu'')) = Inr c \<Longrightarrow>
   cpu_body caps item (tu, tc, ds) =
     Inr (fl_add tu u, fl_add tc c, ds @ [cpu_detail (metadata_name item) u c])"
  by (simp add: cpu_body_def bnd_def utilization_util cpu_detail_def Let_def)

lemma cpu_body_usage_fails:
  "parse_quantity (Some (usage_cpu item)) = Inl e \<Longrightarrow> cpu_body caps item st = Inl e"
  by (cases st) (simp add: cpu_body_def bnd_def Let_def)

lemma cpu_body_capacity_fails:
  "parse_quantity (Some (usage_cpu item)) = Inr u \<Longrightarrow>
   parse_quantity (Some (capacity_str caps (metadata_name item) ''cpu'')) = Inl e \<Longrightarrow>
   cpu_body caps item st = Inl e"
  by (cases st) (simp add: cpu_body_def bnd_def Let_def)

lemma cpu_loop_ok:
  "usage_parses usage_cpu its us \<Longrightarrow> capacity_parses caps ''cpu'' its cs \<Longrightarrow>
   cpu_loop caps its (tu, tc, ds) =
     Inr (foldl fl_add tu us, foldl fl_add tc cs,
          ds @ map (\<lambda>(item, u, c). cpu_detail (metadata_name item) u c) (zip its (zip us cs)))"
proof (induction its arbitrary: us cs tu tc ds)
  case Nil
  then show ?case by (simp add: usage_parses_def capacity_parses_def)
next
  case (Cons item its)
  from Cons.prems obtain u us' c cs' where
    us: "us = u # us'" and cs: "cs = c # cs'"
    and pu: "parse_quantity (Some (usage_cpu item)) = Inr u"
    and pc: "parse_quantity (Some (capacity_str caps (metadata_name item) ''cpu'')) = Inr c"
    and rest: "usage_parses usage_cpu its us'" "capacity_parses caps ''cpu'' its cs'"
    by (auto simp: usage_parses_def capacity_parses_def list_all2_Cons1)
  show ?case
    by (simp add: us cs cpu_body_ok [OF pu pc] Cons.IH [OF rest])
qed

lemma cpu_loop_Inr:
  "cpu_loop caps its st = Inr st' \<Longrightarrow>
   \<exists>us cs. usage_parses usage_cpu its us \<and> capacity_parses caps ''cpu'' its cs"
proof (induction its arbitrary: st)
  case Nil
  then show ?case by (simp add: usage_parses_def capacity_parses_def)
next
  case (Cons item its)
  obtain tu tc ds where st: "st = (tu, tc, ds)" by (cases st) auto
  from parse_quantity_cases [of "Some (usage_cpu item)"] Cons.prems
  obtain u where pu: "parse_quantity (Some (usage_cpu item)) = Inr u"
    by (auto simp: cpu_body_usage_fails)
  from parse_quantity_cases [of "Some (capacity_str caps (metadata_name item) ''cpu'')"] Cons.prems
  obtain c where pc: "parse_quantity (Some (capacity_str caps (metadata_name item) ''cpu'')) = Inr c"
    by (auto simp: cpu_body_capacity_fails [OF pu])
  from Cons.prems have "cpu_loop caps its (fl_add tu u, fl_add tc c, ds @ [cpu_detail (metadata_name item) u c]) = Inr st'"
    by (simp add: st cpu_body_ok [OF pu pc])
  from Cons.IH [OF this] obtain us cs where
    "usage_parses usage_cpu its us" "capacity_parses caps ''cpu'' its cs" by blast
  then have "usage_parses usage_cpu (item # its) (u # us) \<and> capacity_parses caps ''cpu'' (item # its) (c # cs)"
    using pu pc by (simp add: usage_parses_def capacity_parses_def)
  then show ?case by blast
qed

lemma get_cluster_cpu_ok:
  assumes "usage_parses usage_cpu (get_items (items nm)) us"
    and "capacity_parses (node_capacities ns) ''cpu'' (get_items (items nm)) cs"
  shows "get_cluster_cpu nm ns =
     Inr \<lparr>cluster_cpu =
            \<lparr>total_usage_cores = py_round (foldl fl_add (Fin 0) us) 3,
             total_capacity_cores = py_round (foldl fl_add (Fin 0) cs) 3,
             cluster_cpu.utilization_percent = py_round (util (foldl fl_add (Fin 0) us) (foldl fl_add (Fin 0) cs)) 2\<rparr>,
          cluster_cpu_result.nodes = map (\<lambda>(item, u, c). cpu_detail (metadata_name item) u c)
                    (zip (get_items (items nm)) (zip us cs))\<rparr>"
  by (simp add: get_cluster_cpu_def cpu_loop_ok [OF assms] bnd_def utilization_util)

lemma cpu_loop_error:
  "cpu_loop caps its st = Inl e \<Longrightarrow> e = ValueError"
proof (induction its arbitrary: st)
  case Nil
  then show ?case by simp
next
  case (Cons item its)
  obtain tu tc ds where st: "st = (tu, tc, ds)" by (cases st) auto
  show ?case
  proof (cases "cpu_body caps item st")
    case (Inl e')
    with Cons.prems have e: "e' = e" by simp
    from parse_quantity_cases [of "Some (usage_cpu item)"]
         parse_quantity_cases [of "Some (capacity_str caps (metadata_name item) ''cpu'')"]
    show ?thesis
      using Inl e by (auto simp: st cpu_body_ok cpu_body_usage_fails cpu_body_capacity_fails)
  next
    case (Inr st')
    with Cons show ?thesis by simp
  qed
qed

lemma get_cluster_cpu_error: "get_cluster_cpu nm ns = Inl e \<Longrightarrow> e = ValueError"
  by (auto simp: get_cluster_cpu_def bnd_def utilization_util split: sum.splits dest: cpu_loop_error)

lemma get_cluster_cpu_Inr:
  "get_cluster_cpu nm ns = Inr out \<Longrightarrow>
   \<exists>us cs. usage_parses usage_cpu (get_items (items nm)) us \<and>
           capacity_parses (node_capacities ns) ''cpu'' (get_items (items nm)) cs"
  by (auto simp: get_cluster_cpu_def bnd_def split: sum.splits dest: cpu_loop_Inr)

lemma parses_length:
  "usage_parses sel its us \<Longrightarrow> length us = length its"
  "capacity_parses caps key its cs \<Longrightarrow> length cs = length its"
  by (auto simp: usage_parses_def capacity_parses_def dest: list_all2_lengthD)

lemma cpu_nodes_nth:
  assumes "length us = length its" "length cs = length its" "i < length its"
  shows "map (\<lambda>(item, u, c). cpu_detail (metadata_name item) u c) (zip its (zip us cs)) ! i =
         cpu_detail (metadata_name (its ! i)) (us ! i) (cs ! i)"
  using assms by simp

lemma cpu_nodes_names:
  assumes "length us = length its" "length cs = length its"
  shows "map cpu_node_detail.node
           (map (\<lambda>(item, u, c). cpu_detail (metadata_name item) u c) (zip its (zip us cs))) =
         map metadata_name its"
  using assms
proof (induction its arbitrary: us cs)
  case Nil
  then show ?case by simp
next
  case (Cons item its)
  then obtain u us' c cs' where "us = u # us'" "cs = c # cs'"
    by (metis length_Suc_conv)
  with Cons show ?case by (simp add: cpu_detail_def)
qed

lemma usage_parses_iff:
  "(\<exists>us. usage_parses sel its us) \<longleftrightarrow>
   (\<forall>item \<in> set its. \<exists>u. parse_quantity (Some (sel item)) = Inr u)"
proof (induction its)
  case Nil
  then show ?case by (simp add: usage_parses_def)
next
  case (Cons item its)
  show ?case
  proof
    assume "\<exists>us. usage_parses sel (item # its) us"
    then obtain us where "usage_parses sel (item # its) us" ..
    then obtain u us' where "parse_quantity (Some (sel item)) = Inr u" "usage_parses sel its us'"
      by (auto simp: usage_parses_def list_all2_Cons1)
    with Cons.IH show "\<forall>item \<in> set (item # its). \<exists>u. parse_quantity (Some (sel item)) = Inr u"
      by auto
  next
    assume a: "\<forall>item \<in> set (item # its). \<exists>u. parse_quantity (Some (sel item)) = Inr u"
    then obtain u where u: "parse_quantity (Some (sel item)) = Inr u" by auto
    from a Cons.IH obtain us where "usage_parses sel its us" by auto
    with u have "usage_parses sel (item # its) (u # us)" by (simp add: usage_parses_def)
    then show "\<exists>us. usage_parses sel (item # its) us" ..
  qed
qed

lemma capacity_parses_usage:
  "capacity_parses caps key its cs =
   usage_parses (\<lambda>item. capacity_str caps (metadata_name item) key) its cs"
  by (simp add: capacity_parses_def usage_parses_def)

lemma parses_permute:
  assumes "mset its' = mset its"
    and "usage_parses usage_cpu its us" and "capacity_parses caps key its cs"
  shows "\<exists>us' cs'. usage_parses usage_cpu its' us' \<and> capacity_parses caps key its' cs'"
proof -
  from assms(1) have s: "set its' = set its" by (rule mset_eq_setD)
  from assms(2) have "\<exists>us. usage_parses usage_cpu its us" ..
  then have "\<exists>us'. usage_parses usage_cpu its' us'"
    unfolding usage_parses_iff s .
  moreover
  from assms(3) have "\<exists>cs. capacity_parses caps key its cs" ..
  then have "\<exists>cs'. capacity_parses caps key its' cs'"
    unfolding capacity_parses_usage usage_parses_iff s .
  ultimately show ?thesis by blast
qed

lemma get_cluster_cpu_names:
  assumes "get_cluster_cpu nm ns = Inr out"
  shows "map cpu_node_detail.node (cluster_cpu_result.nodes out) =
         map metadata_name (get_items (items nm))"
proof -
  from get_cluster_cpu_Inr [OF assms] obtain us cs where
    p: "usage_parses usage_cpu (get_items (items nm)) us"
       "capacity_parses (node_capacities ns) ''cpu'' (get_items (items nm)) cs" by blast
  from assms get_cluster_cpu_ok [OF p]
  have "cluster_cpu_result.nodes out =
        map (\<lambda>(item, u, c). cpu_detail (metadata_name item) u c)
          (zip (get_items (items nm)) (zip us cs))" by auto
  then show ?thesis
    using cpu_nodes_names [OF parses_length(1) [OF p(1)] parses_length(2) [OF p(2)]] by simp
qed

section \<open>Totals, utilization and order of the cluster CPU aggregation\<close>

lemma parse_0: "parse_quantity (Some ''0'') = Inr (Fin 0)" by code_simp
lemma parse_1: "parse_quantity (Some ''1'') = Inr (Fin 1)" by code_simp
lemma parse_10: "parse_quantity (Some ''10'') = Inr (Fin 10)" by code_simp
lemma parse_12: "parse_quantity (Some ''12'') = Inr (Fin 12)" by code_simp
lemma parse_sixteenth: "parse_quantity (Some ''0.0625'') = Inr (Fin (1 / 16))" by code_simp

text \<open>
  Claim C6. For every sample list, the reported total usage is the sum of the unrounded
  parsed usage values and the reported total capacity the sum of the unrounded parsed
  capacity values (neither is summed from the per-node display values), and the
  cluster-wide utilization is total usage / total capacity * 100 when the total capacity
  is above 0, else 0. The sums run from 0 through the samples in order, as the loop adds
  them. The report shows the two totals through \<^verbatim>\<open>round(_, 3)\<close> and the utilization
  through \<^verbatim>\<open>round(_, 2)\<close>, the display rounding of claim C4.
\<close>

theorem cluster_totals:
  assumes "usage_parses usage_cpu (get_items (items nm)) us"
    and "capacity_parses (node_capacities ns) ''cpu'' (get_items (items nm)) cs"
  shows "\<exists>out. get_cluster_cpu nm ns = Inr out \<and>
     total_usage_cores (cluster_cpu out) = py_round (foldl fl_add (Fin 0) us) 3 \<and>
     total_capacity_cores (cluster_cpu out) = py_round (foldl fl_add (Fin 0) cs) 3 \<and>
     cluster_cpu.utilization_percent (cluster_cpu out) =
       py_round (if py_gt (foldl fl_add (Fin 0) cs) (Fin 0)
                 then fl_mul (fl_div (foldl fl_add (Fin 0) us) (foldl fl_add (Fin 0) cs)) (Fin 100)
                 else Fin 0) 2"
  by (simp add: get_cluster_cpu_ok [OF assms] util_def)

text \<open>
  Two nodes, each using 0.0625 of 1 core: the total is 0.125 of 2 cores, 6.25 percent,
  although each node is displayed as 0.062 and the displayed values add up to less.
\<close>

theorem cluster_totals_witness:
  "\<exists>out. get_cluster_cpu
       \<lparr>items = Some [\<lparr>metadata_name = ''a'', usage_cpu = ''0.0625'', usage_memory = ''0''\<rparr>,
                      \<lparr>metadata_name = ''b'', usage_cpu = ''0.0625'', usage_memory = ''0''\<rparr>]\<rparr>
       [\<lparr>node_metadata_name = ''a'', status_capacity = [''cpu'' \<mapsto> ''1'']\<rparr>,
        \<lparr>node_metadata_name = ''b'', status_capacity = [''cpu'' \<mapsto> ''1'']\<rparr>] = Inr out \<and>
     total_usage_cores (cluster_cpu out) = Fin (1 / 8) \<and>
     total_capacity_cores (cluster_cpu out) = Fin 2 \<and>
     cluster_cpu.utilization_percent (cluster_cpu out) = Fin (25 / 4) \<and>
     foldl fl_add (Fin 0) [py_round (Fin (1 / 16)) 3, py_round (Fin (1 / 16)) 3] \<noteq> Fin (1 / 8)"
proof -
  let ?nm = "\<lparr>items = Some [\<lparr>metadata_name = ''a'', usage_cpu = ''0.0625'', usage_memory = ''0''\<rparr>,
                      \<lparr>metadata_name = ''b'', usage_cpu = ''0.0625'', usage_memory = ''0''\<rparr>]\<rparr>"
  let ?ns = "[\<lparr>node_metadata_name = ''a'', status_capacity = [''cpu'' \<mapsto> ''1'']\<rparr>,
        \<lparr>node_metadata_name = ''b'', status_capacity = [''cpu'' \<mapsto> ''1'']\<rparr>]"
  have u: "usage_parses usage_cpu (get_items (items ?nm)) [Fin (1 / 16), Fin (1 / 16)]"
    by (simp add: usage_parses_def get_items_def parse_sixteenth)
  have c: "capacity_parses (node_capacities ?ns) ''cpu'' (get_items (items ?nm)) [Fin 1, Fin 1]"
    by (simp add: capacity_parses_def get_items_def capacity_str_def dict_get_def
        node_capacities_def parse_1)
  have v: "py_round (foldl fl_add (Fin 0) [Fin (1 / 16), Fin (1 / 16)]) 3 = Fin (1 / 8)"
    "py_round (foldl fl_add (Fin 0) [Fin 1, Fin 1]) 3 = Fin 2"
    "py_gt (foldl fl_add (Fin 0) [Fin 1, Fin 1]) (Fin 0)"
    "py_round (fl_mul (fl_div (foldl fl_add (Fin 0) [Fin (1 / 16), Fin (1 / 16)])
        (foldl fl_add (Fin 0) [Fin 1, Fin 1])) (Fin 100)) 2 = Fin (25 / 4)"
    "foldl fl_add (Fin 0) [py_round (Fin (1 / 16)) 3, py_round (Fin (1 / 16)) 3] \<noteq> Fin (1 / 8)"
    by code_simp+
  from cluster_totals [OF u c] v show ?thesis by (simp only: if_True simp_thms)
qed

text \<open>
  Claim C7. The per-subject list of the output holds the subjects in the input order of
  the samples, one record per sample, with no sorting: the node names of the output are
  the names of the listing's items, in order. So for any permutation \<open>its'\<close> of a listing
  \<open>its\<close> that aggregates, \<open>its'\<close> aggregates too and its output is in the order of \<open>its'\<close>.
\<close>

theorem node_order_preserved:
  "(get_cluster_cpu nm ns = Inr out \<longrightarrow>
      map cpu_node_detail.node (cluster_cpu_result.nodes out) =
        map metadata_name (get_items (items nm)) \<and>
      length (cluster_cpu_result.nodes out) = length (get_items (items nm))) \<and>
   (mset its' = mset its \<longrightarrow> get_cluster_cpu \<lparr>items = Some its\<rparr> ns = Inr out1 \<longrightarrow>
      (\<exists>out2. get_cluster_cpu \<lparr>items = Some its'\<rparr> ns = Inr out2 \<and>
         map cpu_node_detail.node (cluster_cpu_result.nodes out2) = map metadata_name its'))"
proof (intro conjI impI)
  assume a: "get_cluster_cpu nm ns = Inr out"
  from get_cluster_cpu_names [OF a]
  show n: "map cpu_node_detail.node (cluster_cpu_result.nodes out) =
        map metadata_name (get_items (items nm))" .
  from arg_cong [OF n, of length]
  show "length (cluster_cpu_result.nodes out) = length (get_items (items nm))" by simp
next
  assume m: "mset its' = mset its" and a: "get_cluster_cpu \<lparr>items = Some its\<rparr> ns = Inr out1"
  from get_cluster_cpu_Inr [OF a] obtain us cs where
    "usage_parses usage_cpu its us" "capacity_parses (node_capacities ns) ''cpu'' its cs"
    by (auto simp: get_items_def)
  from parses_permute [OF m this] obtain us' cs' where
    p: "usage_parses usage_cpu (get_items (items \<lparr>items = Some its'\<rparr>)) us'"
       "capacity_parses (node_capacities ns) ''cpu'' (get_items (items \<lparr>items = Some its'\<rparr>)) cs'"
    by (auto simp: get_items_def)
  from get_cluster_cpu_ok [OF p] obtain out2 where
    o: "get_cluster_cpu \<lparr>items = Some its'\<rparr> ns = Inr out2" by blast
  from get_cluster_cpu_names [OF o]
  have "map cpu_node_detail.node (cluster_cpu_result.nodes out2) = map metadata_name its'"
    by (simp add: get_items_def)
  with o show "\<exists>out2. get_cluster_cpu \<lparr>items = Some its'\<rparr> ns = Inr out2 \<and>
         map cpu_node_detail.node (cluster_cpu_result.nodes out2) = map metadata_name its'"
    by blast
qed

theorem node_order_preserved_witness:
  "\<exists>out out2.
     get_cluster_cpu
       \<lparr>items = Some [\<lparr>metadata_name = ''b'', usage_cpu = ''12'', usage_memory = ''0''\<rparr>,
                      \<lparr>metadata_name = ''a'', usage_cpu = ''10'', usage_memory = ''0''\<rparr>]\<rparr> []
       = Inr out \<and>
     map cpu_node_detail.node (cluster_cpu_result.nodes out) = [''b'', ''a''] \<and>
     length (cluster_cpu_result.nodes out) = 2 \<and>
     get_cluster_cpu
       \<lparr>items = Some [\<lparr>metadata_name = ''a'', usage_cpu = ''10'', usage_memory = ''0''\<rparr>,
                      \<lparr>metadata_name = ''b'', usage_cpu = ''12'', usage_memory = ''0''\<rparr>]\<rparr> []
       = Inr out2 \<and>
     map cpu_node_detail.node (cluster_cpu_result.nodes out2) = [''a'', ''b'']"
proof -
  let ?a = "\<lparr>metadata_name = ''a'', usage_cpu = ''10'', usage_memory = ''0''\<rparr>"
  let ?b = "\<lparr>metadata_name = ''b'', usage_cpu = ''12'', usage_memory = ''0''\<rparr>"
  have u: "usage_parses usage_cpu (get_items (items \<lparr>items = Some [?b, ?a]\<rparr>)) [Fin 12, Fin 10]"
    by (simp add: usage_parses_def get_items_def parse_12 parse_10)
  have c: "capacity_parses (node_capacities []) ''cpu'' (get_items (items \<lparr>items = Some [?b, ?a]\<rparr>))
             [Fin 0, Fin 0]"
    by (simp add: capacity_parses_def get_items_def capacity_str_def dict_get_def
        node_capacities_def parse_0)
  from get_cluster_cpu_ok [OF u c] obtain out where
    o: "get_cluster_cpu \<lparr>items = Some [?b, ?a]\<rparr> [] = Inr out" by blast
  have m: "mset [?a, ?b] = mset [?b, ?a]" by (simp add: add_mset_commute)
  note T = node_order_preserved [where nm = "\<lparr>items = Some [?b, ?a]\<rparr>" and ns = "[]" and out = out
      and its' = "[?a, ?b]" and its = "[?b, ?a]" and ?out1.0 = out]
  from T o have 1: "map cpu_node_detail.node (cluster_cpu_result.nodes out) = [''b'', ''a'']"
    "length (cluster_cpu_result.nodes out) = 2"
    by (simp_all add: get_items_def)
  from T m o obtain out2 where
    "get_cluster_cpu \<lparr>items = Some [?a, ?b]\<rparr> [] = Inr out2"
    "map cpu_node_detail.node (cluster_cpu_result.nodes out2) = [''a'', ''b'']"
    by auto
  with o 1 show ?thesis
    by (intro exI [of _ out2] exI [of _ out] conjI)
qed

text \<open>
  Claim C3. Utilization percentages are never clamped: whenever the capacity is above 0
  the utilization computed is usage / capacity * 100, whatever its size, and this value
  (through \<^verbatim>\<open>round(_, 2)\<close>) is what the report shows for the node and, with the totals,
  for the cluster. Usage 12 of capacity 10 is reported as 120.0.
\<close>

theorem utilization_not_clamped:
  "(py_gt c (Fin 0) \<longrightarrow> utilization u c = Inr (fl_mul (fl_div u c) (Fin 100))) \<and>
   (usage_parses usage_cpu (get_items (items nm)) us \<longrightarrow>
    capacity_parses (node_capacities ns) ''cpu'' (get_items (items nm)) cs \<longrightarrow>
      (\<exists>out. get_cluster_cpu nm ns = Inr out \<and>
         (\<forall>i < length (get_items (items nm)). py_gt (cs ! i) (Fin 0) \<longrightarrow>
            cpu_node_detail.utilization_percent (cluster_cpu_result.nodes out ! i) =
              py_round (fl_mul (fl_div (us ! i) (cs ! i)) (Fin 100)) 2) \<and>
         (py_gt (foldl fl_add (Fin 0) cs) (Fin 0) \<longrightarrow>
            cluster_cpu.utilization_percent (cluster_cpu out) =
              py_round (fl_mul (fl_div (foldl fl_add (Fin 0) us) (foldl fl_add (Fin 0) cs))
                          (Fin 100)) 2)))"
proof (intro conjI impI)
  assume "py_gt c (Fin 0)"
  then show "utilization u c = Inr (fl_mul (fl_div u c) (Fin 100))"
    by (simp add: utilization_util util_def)
next
  assume p: "usage_parses usage_cpu (get_items (items nm)) us"
    "capacity_parses (node_capacities ns) ''cpu'' (get_items (items nm)) cs"
  show "\<exists>out. get_cluster_cpu nm ns = Inr out \<and>
         (\<forall>i < length (get_items (items nm)). py_gt (cs ! i) (Fin 0) \<longrightarrow>
            cpu_node_detail.utilization_percent (cluster_cpu_result.nodes out ! i) =
              py_round (fl_mul (fl_div (us ! i) (cs ! i)) (Fin 100)) 2) \<and>
         (py_gt (foldl fl_add (Fin 0) cs) (Fin 0) \<longrightarrow>
            cluster_cpu.utilization_percent (cluster_cpu out) =
              py_round (fl_mul (fl_div (foldl fl_add (Fin 0) us) (foldl fl_add (Fin 0) cs))
                          (Fin 100)) 2)"
    using parses_length(1) [OF p(1)] parses_length(2) [OF p(2)]
    by (simp add: get_cluster_cpu_ok [OF p] util_def cpu_detail_def)
qed

theorem utilization_not_clamped_witness:
  "utilization (Fin 12) (Fin 10) = Inr (Fin 120) \<and>
   (\<exists>out. get_cluster_cpu
        \<lparr>items = Some [\<lparr>metadata_name = ''a'', usage_cpu = ''12'', usage_memory = ''0''\<rparr>]\<rparr>
        [\<lparr>node_metadata_name = ''a'', status_capacity = [''cpu'' \<mapsto> ''10'']\<rparr>] = Inr out \<and>
      cpu_node_detail.utilization_percent (cluster_cpu_result.nodes out ! 0) = Fin 120 \<and>
      cluster_cpu.utilization_percent (cluster_cpu out) = Fin 120)"
proof -
  let ?nm = "\<lparr>items = Some [\<lparr>metadata_name = ''a'', usage_cpu = ''12'', usage_memory = ''0''\<rparr>]\<rparr>"
  let ?ns = "[\<lparr>node_metadata_name = ''a'', status_capacity = [''cpu'' \<mapsto> ''10'']\<rparr>]"
  have g: "py_gt (Fin 10) (Fin 0)" by (simp add: py_gt_def)
  have u: "usage_parses usage_cpu (get_items (items ?nm)) [Fin 12]"
    by (simp add: usage_parses_def get_items_def parse_12)
  have c: "capacity_parses (node_capacities ?ns) ''cpu'' (get_items (items ?nm)) [Fin 10]"
    by (simp add: capacity_parses_def get_items_def capacity_str_def dict_get_def
        node_capacities_def parse_10)
  have len: "0 < length (get_items (items ?nm))" by (simp add: get_items_def)
  have v: "fl_mul (fl_div (Fin 12) (Fin 10)) (Fin 100) = Fin 120"
    "py_round (Fin 120) 2 = Fin 120"
    "foldl fl_add (Fin 0) [Fin 12] = Fin 12" "foldl fl_add (Fin 0) [Fin 10] = Fin 10"
    by code_simp+
  note T = utilization_not_clamped [where c = "Fin 10" and u = "Fin 12" and nm = ?nm and ns = ?ns
      and us = "[Fin 12]" and cs = "[Fin 10]"]
  from T g have 1: "utilization (Fin 12) (Fin 10) = Inr (Fin 120)" by (simp only: v)
  from T u c obtain out where o: "get_cluster_cpu ?nm ?ns = Inr out"
    and per: "\<forall>i < length (get_items (items ?nm)). py_gt ([Fin 10] ! i) (Fin 0) \<longrightarrow>
            cpu_node_detail.utilization_percent (cluster_cpu_result.nodes out ! i) =
              py_round (fl_mul (fl_div ([Fin 12] ! i) ([Fin 10] ! i)) (Fin 100)) 2"
    and cl: "py_gt (foldl fl_add (Fin 0) [Fin 10]) (Fin 0) \<longrightarrow>
            cluster_cpu.utilization_percent (cluster_cpu out) =
              py_round (fl_mul (fl_div (foldl fl_add (Fin 0) [Fin 12])
                 (foldl fl_add (Fin 0) [Fin 10])) (Fin 100)) 2"
    by blast
  from per [rule_format, OF len] g
  have 2: "cpu_node_detail.utilization_percent (cluster_cpu_result.nodes out ! 0) = Fin 120"
    by (simp only: nth_Cons_0 v)
  from cl g have 3: "cluster_cpu.utilization_percent (cluster_cpu out) = Fin 120"
    by (simp only: v)
  from 1 2 3 o show ?thesis by blast
qed

text \<open>
  Claim C2. A capacity of 0 never causes a division error: the aggregation never raises
  ZeroDivisionError; the division is made only under the guard \<^verbatim>\<open>capacity > 0\<close> and the
  utilization is 0 otherwise; a subject whose capacity is 0 is reported with 0 percent,
  and when the total capacity is 0 the cluster-wide utilization is 0 percent.
\<close>

theorem zero_capacity_no_division_error:
  "get_cluster_cpu nm ns \<noteq> Inl ZeroDivisionError \<and>
   utilization u c =
     Inr (if py_gt c (Fin 0) then fl_mul (fl_div u c) (Fin 100) else Fin 0) \<and>
   utilization u (Fin 0) = Inr (Fin 0) \<and>
   (usage_parses usage_cpu (get_items (items nm)) us \<longrightarrow>
    capacity_parses (node_capacities ns) ''cpu'' (get_items (items nm)) cs \<longrightarrow>
      (\<exists>out. get_cluster_cpu nm ns = Inr out \<and>
         (\<forall>i < length (get_items (items nm)). cs ! i = Fin 0 \<longrightarrow>
            cpu_node_detail.utilization_percent (cluster_cpu_result.nodes out ! i) = Fin 0) \<and>
         (foldl fl_add (Fin 0) cs = Fin 0 \<longrightarrow>
            cluster_cpu.utilization_percent (cluster_cpu out) = Fin 0)))"
proof (intro conjI impI)
  show "get_cluster_cpu nm ns \<noteq> Inl ZeroDivisionError"
    using get_cluster_cpu_error [of nm ns ZeroDivisionError] by auto
  show "utilization u c =
     Inr (if py_gt c (Fin 0) then fl_mul (fl_div u c) (Fin 100) else Fin 0)"
    by (simp add: utilization_util util_def)
  show "utilization u (Fin 0) = Inr (Fin 0)"
    by (simp add: utilization_util util_def py_gt_def)
next
  assume p: "usage_parses usage_cpu (get_items (items nm)) us"
    "capacity_parses (node_capacities ns) ''cpu'' (get_items (items nm)) cs"
  show "\<exists>out. get_cluster_cpu nm ns = Inr out \<and>
         (\<forall>i < length (get_items (items nm)). cs ! i = Fin 0 \<longrightarrow>
            cpu_node_detail.utilization_percent (cluster_cpu_result.nodes out ! i) = Fin 0) \<and>
         (foldl fl_add (Fin 0) cs = Fin 0 \<longrightarrow>
            cluster_cpu.utilization_percent (cluster_cpu out) = Fin 0)"
    using parses_length(1) [OF p(1)] parses_length(2) [OF p(2)]
    by (simp add: get_cluster_cpu_ok [OF p] util_def cpu_detail_def py_gt_def py_round_zero)
qed

theorem zero_capacity_no_division_error_witness:
  "\<exists>out. get_cluster_cpu
        \<lparr>items = Some [\<lparr>metadata_name = ''a'', usage_cpu = ''12'', usage_memory = ''0''\<rparr>]\<rparr>
        [\<lparr>node_metadata_name = ''a'', status_capacity = [''cpu'' \<mapsto> ''0'']\<rparr>] = Inr out \<and>
      cpu_node_detail.utilization_percent (cluster_cpu_result.nodes out ! 0) = Fin 0 \<and>
      cluster_cpu.utilization_percent (cluster_cpu out) = Fin 0"
proof -
  let ?nm = "\<lparr>items = Some [\<lparr>metadata_name = ''a'', usage_cpu = ''12'', usage_memory = ''0''\<rparr>]\<rparr>"
  let ?ns = "[\<lparr>node_metadata_name = ''a'', status_capacity = [''cpu'' \<mapsto> ''0'']\<rparr>]"
  have u: "usage_parses usage_cpu (get_items (items ?nm)) [Fin 12]"
    by (simp add: usage_parses_def get_items_def parse_12)
  have c: "capacity_parses (node_capacities ?ns) ''cpu'' (get_items (items ?nm)) [Fin 0]"
    by (simp add: capacity_parses_def get_items_def capacity_str_def dict_get_def
        node_capacities_def parse_0)
  have v: "foldl fl_add (Fin 0) [Fin 0] = Fin 0" by code_simp
  note T = zero_capacity_no_division_error [where nm = ?nm and ns = ?ns and u = "Fin 12"
      and c = "Fin 0" and us = "[Fin 12]" and cs = "[Fin 0]"]
  from T u c obtain out where o: "get_cluster_cpu ?nm ?ns = Inr out"
    and per: "\<forall>i < length (get_items (items ?nm)). [Fin 0] ! i = Fin 0 \<longrightarrow>
            cpu_node_detail.utilization_percent (cluster_cpu_result.nodes out ! i) = Fin 0"
    and cl: "foldl fl_add (Fin 0) [Fin 0] = Fin 0 \<longrightarrow>
            cluster_cpu.utilization_percent (cluster_cpu out) = Fin 0"
    by blast
  from per have 2: "cpu_node_detail.utilization_percent (cluster_cpu_result.nodes out ! 0) = Fin 0"
    by (simp add: get_items_def)
  from cl v have 3: "cluster_cpu.utilization_percent (cluster_cpu out) = Fin 0" by simp
  from 2 3 o show ?thesis by blast
qed

section \<open>The cluster memory loop in closed form\<close>

lemma py_truediv_Gi: "py_truediv x (int_to_float 1073741824) = Inr (fl_div x (Fin 1073741824))"
  by (simp add: py_truediv_def int_to_float_Gi)

lemma py_truediv_Mi: "py_truediv x (int_to_float 1048576) = Inr (fl_div x (Fin 1048576))"
  by (simp add: py_truediv_def int_to_float_Mi)

lemma memory_body_ok:
  "parse_quantity (Some (usage_memory item)) = Inr u \<Longrightarrow>
   parse_quantity (Some (capacity_str caps (metadata_name item) ''memory'')) = Inr c \<Longrightarrow>
   memory_body caps item (tu, tc, ds) =
     Inr (fl_add tu u, fl_add tc c, ds @ [memory_detail (metadata_name item) u c])"
  by (simp add: memory_body_def bnd_def utilization_util memory_detail_def Let_def py_truediv_Gi)

lemma memory_body_usage_fails:
  "parse_quantity (Some (usage_memory item)) = Inl e \<Longrightarrow> memory_body caps item st = Inl e"
  by (cases st) (simp add: memory_body_def bnd_def Let_def)

lemma memory_body_capacity_fails:
  "parse_quantity (Some (usage_memory item)) = Inr u \<Longrightarrow>
   parse_quantity (Some (capacity_str caps (metadata_name item) ''memory'')) = Inl e \<Longrightarrow>
   memory_body caps item st = Inl e"
  by (cases st) (simp add: memory_body_def bnd_def Let_def)

lemma memory_loop_ok:
  "usage_parses usage_memory its us \<Longrightarrow> capacity_parses caps ''memory'' its cs \<Longrightarrow>
   memory_loop caps its (tu, tc, ds) =
     Inr (foldl fl_add tu us, foldl fl_add tc cs,
          ds @ map (\<lambda>(item, u, c). memory_detail (metadata_name item) u c)
                 (zip its (zip us cs)))"
proof (induction its arbitrary: us cs tu tc ds)
  case Nil
  then show ?case by (simp add: usage_parses_def capacity_parses_def)
next
  case (Cons item its)
  from Cons.prems obtain u us' c cs' where
    us: "us = u # us'" and cs: "cs = c # cs'"
    and pu: "parse_quantity (Some (usage_memory item)) = Inr u"
    and pc: "parse_quantity (Some (capacity_str caps (metadata_name item) ''memory'')) = Inr c"
    and rest: "usage_parses usage_memory its us'" "capacity_parses caps ''memory'' its cs'"
    by (auto simp: usage_parses_def capacity_parses_def list_all2_Cons1)
  show ?case
    by (simp add: us cs memory_body_ok [OF pu pc] Cons.IH [OF rest])
qed

lemma memory_loop_error:
  "memory_loop caps its st = Inl e \<Longrightarrow> e = ValueError"
proof (induction its arbitrary: st)
  case Nil
  then show ?case by simp
next
  case (Cons item its)
  obtain tu tc ds where st: "st = (tu, tc, ds)" by (cases st) auto
  show ?case
  proof (cases "memory_body caps item st")
    case (Inl e')
    with Cons.prems have e: "e' = e" by simp
    from parse_quantity_cases [of "Some (usage_memory item)"]
         parse_quantity_cases [of "Some (capacity_str caps (metadata_name item) ''memory'')"]
    show ?thesis
      using Inl e
      by (auto simp: st memory_body_ok memory_body_usage_fails memory_body_capacity_fails)
  next
    case (Inr st')
    with Cons show ?thesis by simp
  qed
qed

lemma get_cluster_memory_ok:
  assumes "usage_parses usage_memory (get_items (items nm)) us"
    and "capacity_parses (node_capacities ns) ''memory'' (get_items (items nm)) cs"
  shows "get_cluster_memory nm ns =
     Inr \<lparr>cluster_memory =
            \<lparr>total_usage_gi = py_round (fl_div (foldl fl_add (Fin 0) us) (Fin 1073741824)) 2,
             total_capacity_gi = py_round (fl_div (foldl fl_add (Fin 0) cs) (Fin 1073741824)) 2,
             cluster_memory.utilization_percent =
               py_round (util (foldl fl_add (Fin 0) us) (foldl fl_add (Fin 0) cs)) 2\<rparr>,
          cluster_memory_result.nodes =
            map (\<lambda>(item, u, c). memory_detail (metadata_name item) u c)
              (zip (get_items (items nm)) (zip us cs))\<rparr>"
  by (simp add: get_cluster_memory_def memory_loop_ok [OF assms] bnd_def utilization_util
      py_truediv_Gi)

lemma get_cluster_memory_error: "get_cluster_memory nm ns = Inl e \<Longrightarrow> e = ValueError"
  by (auto simp: get_cluster_memory_def bnd_def utilization_util py_truediv_Gi
      split: sum.splits dest: memory_loop_error)

lemma dom_node_capacities_aux:
  "dom (foldl (\<lambda>d node. d(node_metadata_name node \<mapsto> status_capacity node)) m ns) =
   dom m \<union> node_metadata_name ` set ns"
  by (induction ns arbitrary: m) auto

lemma node_capacities_None:
  "node_capacities ns n = None \<longleftrightarrow> n \<notin> node_metadata_name ` set ns"
proof -
  have "n \<in> dom (node_capacities ns) \<longleftrightarrow> n \<in> node_metadata_name ` set ns"
    by (simp add: node_capacities_def dom_node_capacities_aux)
  then show ?thesis by (auto simp: domIff)
qed

lemma capacity_str_missing:
  "n \<notin> node_metadata_name ` set ns \<Longrightarrow> capacity_str (node_capacities ns) n key = ''0''"
  by (simp add: capacity_str_def dict_get_def node_capacities_None [THEN iffD2])

section \<open>A subject missing from the capacity listing\<close>

lemma parse_missing_capacity:
  "n \<notin> node_metadata_name ` set ns \<Longrightarrow>
   parse_quantity (Some (capacity_str (node_capacities ns) n key)) = Inr (Fin 0)"
  by (simp add: capacity_str_missing parse_0)

lemma util_zero_capacity: "util u (Fin 0) = Fin 0"
  by (simp add: util_def py_gt_def)

lemma fl_div_zero_Gi: "fl_div (Fin 0) (Fin 1073741824) = Fin 0"
  by (simp add: to_double_def)

text \<open>
  Claim C9. A subject of the metrics listing with no entry in the capacity listing (no
  node of its name) does not make the aggregation fail: the lookup yields the string
  \<^verbatim>\<open>'0'\<close>, which parses to 0, so the step of the loop for that subject succeeds whenever
  its usage parses, adds 0 to the total capacity, and reports the subject with capacity 0
  and utilization 0 percent. This holds for the CPU loop and for the memory loop.
\<close>

theorem missing_capacity_defaults_to_zero:
  "(n \<notin> node_metadata_name ` set ns \<longrightarrow>
      capacity_str (node_capacities ns) n key = ''0'' \<and>
      parse_quantity (Some (capacity_str (node_capacities ns) n key)) = Inr (Fin 0)) \<and>
   (metadata_name item \<notin> node_metadata_name ` set ns \<longrightarrow>
    parse_quantity (Some (usage_cpu item)) = Inr u \<longrightarrow>
      cpu_body (node_capacities ns) item (tu, tc, ds) =
        Inr (fl_add tu u, fl_add tc (Fin 0),
             ds @ [\<lparr>cpu_node_detail.node = metadata_name item,
                     usage_cores = py_round u 3,
                     capacity_cores = Fin 0,
                     cpu_node_detail.utilization_percent = Fin 0\<rparr>])) \<and>
   (metadata_name item \<notin> node_metadata_name ` set ns \<longrightarrow>
    parse_quantity (Some (usage_memory item)) = Inr v \<longrightarrow>
      memory_body (node_capacities ns) item (mu, mc, ms) =
        Inr (fl_add mu v, fl_add mc (Fin 0),
             ms @ [\<lparr>memory_node_detail.node = metadata_name item,
                     usage_gi = py_round (fl_div v (Fin 1073741824)) 2,
                     capacity_gi = Fin 0,
                     memory_node_detail.utilization_percent = Fin 0\<rparr>])) \<and>
   (usage_parses usage_cpu (get_items (items nm)) us \<longrightarrow>
    capacity_parses (node_capacities ns) ''cpu'' (get_items (items nm)) cs \<longrightarrow>
    i < length (get_items (items nm)) \<longrightarrow>
    metadata_name (get_items (items nm) ! i) \<notin> node_metadata_name ` set ns \<longrightarrow>
      cs ! i = Fin 0 \<and>
      (\<exists>out. get_cluster_cpu nm ns = Inr out \<and>
         capacity_cores (cluster_cpu_result.nodes out ! i) = Fin 0 \<and>
         cpu_node_detail.utilization_percent (cluster_cpu_result.nodes out ! i) = Fin 0))"
proof (intro conjI impI)
  assume "n \<notin> node_metadata_name ` set ns"
  then show "capacity_str (node_capacities ns) n key = ''0''"
    and "parse_quantity (Some (capacity_str (node_capacities ns) n key)) = Inr (Fin 0)"
    by (simp_all add: capacity_str_missing parse_0)
next
  assume m: "metadata_name item \<notin> node_metadata_name ` set ns"
    and p: "parse_quantity (Some (usage_cpu item)) = Inr u"
  show "cpu_body (node_capacities ns) item (tu, tc, ds) =
        Inr (fl_add tu u, fl_add tc (Fin 0),
             ds @ [\<lparr>cpu_node_detail.node = metadata_name item,
                     usage_cores = py_round u 3,
                     capacity_cores = Fin 0,
                     cpu_node_detail.utilization_percent = Fin 0\<rparr>])"
    by (simp add: cpu_body_ok [OF p parse_missing_capacity [OF m]] cpu_detail_def
        util_zero_capacity py_round_zero)
next
  assume m: "metadata_name item \<notin> node_metadata_name ` set ns"
    and p: "parse_quantity (Some (usage_memory item)) = Inr v"
  show "memory_body (node_capacities ns) item (mu, mc, ms) =
        Inr (fl_add mu v, fl_add mc (Fin 0),
             ms @ [\<lparr>memory_node_detail.node = metadata_name item,
                     usage_gi = py_round (fl_div v (Fin 1073741824)) 2,
                     capacity_gi = Fin 0,
                     memory_node_detail.utilization_percent = Fin 0\<rparr>])"
    by (simp only: memory_body_ok [OF p parse_missing_capacity [OF m]] memory_detail_def
        util_zero_capacity py_round_zero fl_div_zero_Gi)
next
  assume p: "usage_parses usage_cpu (get_items (items nm)) us"
    "capacity_parses (node_capacities ns) ''cpu'' (get_items (items nm)) cs"
    and i: "i < length (get_items (items nm))"
    and m: "metadata_name (get_items (items nm) ! i) \<notin> node_metadata_name ` set ns"
  from p(2) i have "parse_quantity (Some (capacity_str (node_capacities ns)
      (metadata_name (get_items (items nm) ! i)) ''cpu'')) = Inr (cs ! i)"
    unfolding capacity_parses_def by (rule list_all2_nthD)
  with parse_missing_capacity [OF m] show z: "cs ! i = Fin 0" by simp
  show "\<exists>out. get_cluster_cpu nm ns = Inr out \<and>
         capacity_cores (cluster_cpu_result.nodes out ! i) = Fin 0 \<and>
         cpu_node_detail.utilization_percent (cluster_cpu_result.nodes out ! i) = Fin 0"
    using parses_length(1) [OF p(1)] parses_length(2) [OF p(2)] i z
    by (simp add: get_cluster_cpu_ok [OF p] cpu_detail_def util_zero_capacity py_round_zero)
qed

theorem missing_capacity_defaults_to_zero_witness:
  "capacity_str (node_capacities []) ''a'' ''cpu'' = ''0'' \<and>
   cpu_body (node_capacities [])
      \<lparr>metadata_name = ''a'', usage_cpu = ''12'', usage_memory = ''1Gi''\<rparr> (Fin 0, Fin 0, []) =
     Inr (Fin 12, Fin 0,
          [\<lparr>cpu_node_detail.node = ''a'', usage_cores = Fin 12, capacity_cores = Fin 0,
            cpu_node_detail.utilization_percent = Fin 0\<rparr>]) \<and>
   memory_body (node_capacities [])
      \<lparr>metadata_name = ''a'', usage_cpu = ''12'', usage_memory = ''1Gi''\<rparr> (Fin 0, Fin 0, []) =
     Inr (Fin 1073741824, Fin 0,
          [\<lparr>memory_node_detail.node = ''a'', usage_gi = Fin 1, capacity_gi = Fin 0,
            memory_node_detail.utilization_percent = Fin 0\<rparr>]) \<and>
   (\<exists>out. get_cluster_cpu
        \<lparr>items = Some [\<lparr>metadata_name = ''a'', usage_cpu = ''12'', usage_memory = ''1Gi''\<rparr>]\<rparr> []
        = Inr out \<and>
      capacity_cores (cluster_cpu_result.nodes out ! 0) = Fin 0 \<and>
      cpu_node_detail.utilization_percent (cluster_cpu_result.nodes out ! 0) = Fin 0)"
proof -
  let ?item = "\<lparr>metadata_name = ''a'', usage_cpu = ''12'', usage_memory = ''1Gi''\<rparr>"
  let ?nm = "\<lparr>items = Some [?item]\<rparr>"
  have m: "metadata_name ?item \<notin> node_metadata_name ` set []" by simp
  have m': "metadata_name (get_items (items ?nm) ! 0) \<notin> node_metadata_name ` set []" by simp
  have pc: "parse_quantity (Some (usage_cpu ?item)) = Inr (Fin 12)" by (simp add: parse_12)
  have "parse_quantity (Some ''1Gi'') = Inr (Fin 1073741824)" by code_simp
  then have pm: "parse_quantity (Some (usage_memory ?item)) = Inr (Fin 1073741824)" by simp
  have u: "usage_parses usage_cpu (get_items (items ?nm)) [Fin 12]"
    by (simp add: usage_parses_def get_items_def parse_12)
  have c: "capacity_parses (node_capacities []) ''cpu'' (get_items (items ?nm)) [Fin 0]"
    by (simp add: capacity_parses_def get_items_def capacity_str_def dict_get_def
        node_capacities_def parse_0)
  have len: "0 < length (get_items (items ?nm))" by (simp add: get_items_def)
  have v: "fl_add (Fin 0) (Fin 12) = Fin 12" "fl_add (Fin 0) (Fin 0) = Fin 0"
    "py_round (Fin 12) 3 = Fin 12" "fl_add (Fin 0) (Fin 1073741824) = Fin 1073741824"
    "py_round (fl_div (Fin 1073741824) (Fin 1073741824)) 2 = Fin 1"
    by code_simp+
  note T = missing_capacity_defaults_to_zero [where n = "''a''" and ns = "[]" and key = "''cpu''"
      and item = ?item and u = "Fin 12" and tu = "Fin 0" and tc = "Fin 0" and ds = "[]"
      and v = "Fin 1073741824" and mu = "Fin 0" and mc = "Fin 0" and ms = "[]"
      and nm = ?nm and us = "[Fin 12]" and cs = "[Fin 0]" and i = 0]
  from T have 1: "capacity_str (node_capacities []) ''a'' ''cpu'' = ''0''" by simp
  from T m pc have "cpu_body (node_capacities []) ?item (Fin 0, Fin 0, []) =
        Inr (fl_add (Fin 0) (Fin 12), fl_add (Fin 0) (Fin 0),
             [] @ [\<lparr>cpu_node_detail.node = metadata_name ?item,
                     usage_cores = py_round (Fin 12) 3,
                     capacity_cores = Fin 0,
                     cpu_node_detail.utilization_percent = Fin 0\<rparr>])"
    by blast
  then have 2: "cpu_body (node_capacities []) ?item (Fin 0, Fin 0, []) =
     Inr (Fin 12, Fin 0,
          [\<lparr>cpu_node_detail.node = ''a'', usage_cores = Fin 12, capacity_cores = Fin 0,
            cpu_node_detail.utilization_percent = Fin 0\<rparr>])"
    by (simp only: v append_Nil node_metrics_item.simps)
  from T m pm have "memory_body (node_capacities []) ?item (Fin 0, Fin 0, []) =
        Inr (fl_add (Fin 0) (Fin 1073741824), fl_add (Fin 0) (Fin 0),
             [] @ [\<lparr>memory_node_detail.node = metadata_name ?item,
                     usage_gi = py_round (fl_div (Fin 1073741824) (Fin 1073741824)) 2,
                     capacity_gi = Fin 0,
                     memory_node_detail.utilization_percent = Fin 0\<rparr>])"
    by blast
  then have 3: "memory_body (node_capacities []) ?item (Fin 0, Fin 0, []) =
     Inr (Fin 1073741824, Fin 0,
          [\<lparr>memory_node_detail.node = ''a'', usage_gi = Fin 1, capacity_gi = Fin 0,
            memory_node_detail.utilization_percent = Fin 0\<rparr>])"
    by (simp only: v append_Nil node_metrics_item.simps)
  from T u c len m' obtain out where
    "get_cluster_cpu ?nm [] = Inr out"
    "capacity_cores (cluster_cpu_result.nodes out ! 0) = Fin 0"
    "cpu_node_detail.utilization_percent (cluster_cpu_result.nodes out ! 0) = Fin 0"
    by blast
  with 1 2 3 show ?thesis by (intro conjI exI [of _ out])
qed

section \<open>Units and rounding of the reported figures\<close>

lemma container_body_ok:
  "parse_quantity (Some (container_usage_cpu container)) = Inr c \<Longrightarrow>
   parse_quantity (Some (container_usage_memory container)) = Inr m \<Longrightarrow>
   container_body container (total_cpu, total_mem, ms) =
     Inr (fl_add total_cpu c, fl_add total_mem m,
          ms @ [\<lparr>container_metrics.name = container_name container,
                  cpu_cores = py_round c 3,
                  memory_mi = py_round (fl_div m (Fin 1048576)) 2\<rparr>])"
  by (simp add: container_body_def bnd_def py_truediv_Mi)

lemma pod_body_ok:
  "container_loop (get_items (pod_containers item)) (Fin 0, Fin 0, []) =
     Inr (total_cpu, total_mem, ms) \<Longrightarrow>
   pod_body item result =
     Inr (result @
          [\<lparr>pod_metrics.name = pod_metadata_name item,
            namespace = pod_metadata_namespace item,
            total_cpu_cores = py_round total_cpu 3,
            total_memory_mi = py_round (fl_div total_mem (Fin 1048576)) 2,
            containers = ms\<rparr>])"
  by (simp add: pod_body_def bnd_def py_truediv_Mi)

text \<open>
  Claim C4 says that every byte-based aggregation reports usage and capacity converted to
  gibibytes alongside the raw byte totals. The code does otherwise in two places.
  The cluster memory report holds the gibibyte figures only: a node using 1 byte and a node
  using 2 bytes of 4 GiB give the very same report, so the byte totals cannot be read
  from it. And the pod metrics report gives memory in mebibytes: 2 GiB is reported as
  \<open>memory_mi = 2048\<close>.
\<close>

theorem no_raw_bytes_and_mebibytes_counterexample:
  "get_cluster_memory
     \<lparr>items = Some [\<lparr>metadata_name = ''a'', usage_cpu = ''0'', usage_memory = ''1''\<rparr>]\<rparr>
     [\<lparr>node_metadata_name = ''a'', status_capacity = [''memory'' \<mapsto> ''4Gi'']\<rparr>] =
   Inr \<lparr>cluster_memory =
          \<lparr>total_usage_gi = Fin 0, total_capacity_gi = Fin 4,
           cluster_memory.utilization_percent = Fin 0\<rparr>,
        cluster_memory_result.nodes =
          [\<lparr>memory_node_detail.node = ''a'', usage_gi = Fin 0, capacity_gi = Fin 4,
            memory_node_detail.utilization_percent = Fin 0\<rparr>]\<rparr> \<and>
   get_cluster_memory
     \<lparr>items = Some [\<lparr>metadata_name = ''a'', usage_cpu = ''0'', usage_memory = ''2''\<rparr>]\<rparr>
     [\<lparr>node_metadata_name = ''a'', status_capacity = [''memory'' \<mapsto> ''4Gi'']\<rparr>] =
   Inr \<lparr>cluster_memory =
          \<lparr>total_usage_gi = Fin 0, total_capacity_gi = Fin 4,
           cluster_memory.utilization_percent = Fin 0\<rparr>,
        cluster_memory_result.nodes =
          [\<lparr>memory_node_detail.node = ''a'', usage_gi = Fin 0, capacity_gi = Fin 4,
            memory_node_detail.utilization_percent = Fin 0\<rparr>]\<rparr> \<and>
   parse_quantity (Some ''1'') = Inr (Fin 1) \<and>
   parse_quantity (Some ''2'') = Inr (Fin 2) \<and>
   get_pod_metrics
     [\<lparr>pod_metadata_name = ''p'', pod_metadata_namespace = ''default'',
       pod_containers = Some [\<lparr>container_name = ''c'', container_usage_cpu = ''4'',
                                container_usage_memory = ''2147483648''\<rparr>]\<rparr>] =
   Inr \<lparr>count = 1,
        pods = [\<lparr>pod_metrics.name = ''p'', namespace = ''default'',
                 total_cpu_cores = Fin 4, total_memory_mi = Fin 2048,
                 containers = [\<lparr>container_metrics.name = ''c'', cpu_cores = Fin 4,
                                 memory_mi = Fin 2048\<rparr>]\<rparr>]\<rparr>"
  by code_simp

text \<open>
  Claim C4 as amended. The cluster memory aggregation reports usage and capacity, per
  node and in total, converted to gibibytes (bytes / 1024^3) and rounded to 2 decimal
  places, and nothing in bytes; the pod metrics aggregation reports memory converted to
  mebibytes (bytes / 1024^2) and rounded to 2 decimal places; percentages are rounded to
  2 decimal places and core figures to 3. In particular a usage of 2 * 1024^3 bytes
  reports \<open>usage_gi = 2\<close>.
\<close>

theorem reported_units_and_rounding:
  "(usage_parses usage_memory (get_items (items nm)) us \<longrightarrow>
    capacity_parses (node_capacities ns) ''memory'' (get_items (items nm)) cs \<longrightarrow>
      get_cluster_memory nm ns =
        Inr \<lparr>cluster_memory =
               \<lparr>total_usage_gi =
                  py_round (fl_div (foldl fl_add (Fin 0) us) (Fin (1024 ^ 3))) 2,
                total_capacity_gi =
                  py_round (fl_div (foldl fl_add (Fin 0) cs) (Fin (1024 ^ 3))) 2,
                cluster_memory.utilization_percent =
                  py_round (util (foldl fl_add (Fin 0) us) (foldl fl_add (Fin 0) cs)) 2\<rparr>,
             cluster_memory_result.nodes =
               map (\<lambda>(item, u, c).
                     \<lparr>memory_node_detail.node = metadata_name item,
                      usage_gi = py_round (fl_div u (Fin (1024 ^ 3))) 2,
                      capacity_gi = py_round (fl_div c (Fin (1024 ^ 3))) 2,
                      memory_node_detail.utilization_percent = py_round (util u c) 2\<rparr>)
                 (zip (get_items (items nm)) (zip us cs))\<rparr>) \<and>
   (usage_parses usage_cpu (get_items (items nm)) us' \<longrightarrow>
    capacity_parses (node_capacities ns) ''cpu'' (get_items (items nm)) cs' \<longrightarrow>
      get_cluster_cpu nm ns =
        Inr \<lparr>cluster_cpu =
               \<lparr>total_usage_cores = py_round (foldl fl_add (Fin 0) us') 3,
                total_capacity_cores = py_round (foldl fl_add (Fin 0) cs') 3,
                cluster_cpu.utilization_percent =
                  py_round (util (foldl fl_add (Fin 0) us') (foldl fl_add (Fin 0) cs')) 2\<rparr>,
             cluster_cpu_result.nodes =
               map (\<lambda>(item, u, c).
                     \<lparr>cpu_node_detail.node = metadata_name item,
                      usage_cores = py_round u 3,
                      capacity_cores = py_round c 3,
                      cpu_node_detail.utilization_percent = py_round (util u c) 2\<rparr>)
                 (zip (get_items (items nm)) (zip us' cs'))\<rparr>) \<and>
   (parse_quantity (Some (container_usage_cpu container)) = Inr c \<longrightarrow>
    parse_quantity (Some (container_usage_memory container)) = Inr m \<longrightarrow>
      container_body container (total_cpu, total_mem, ms) =
        Inr (fl_add total_cpu c, fl_add total_mem m,
             ms @ [\<lparr>container_metrics.name = container_name container,
                     cpu_cores = py_round c 3,
                     memory_mi = py_round (fl_div m (Fin (1024 ^ 2))) 2\<rparr>])) \<and>
   (container_loop (get_items (pod_containers pod)) (Fin 0, Fin 0, []) =
      Inr (pod_cpu, pod_mem, pod_ms) \<longrightarrow>
      pod_body pod result =
        Inr (result @
             [\<lparr>pod_metrics.name = pod_metadata_name pod,
               namespace = pod_metadata_namespace pod,
               total_cpu_cores = py_round pod_cpu 3,
               total_memory_mi = py_round (fl_div pod_mem (Fin (1024 ^ 2))) 2,
               containers = pod_ms\<rparr>])) \<and>
   py_round (fl_div (Fin (2 * 1024 ^ 3)) (Fin (1024 ^ 3))) 2 = Fin 2"
proof (intro conjI impI)
  assume p: "usage_parses usage_memory (get_items (items nm)) us"
    "capacity_parses (node_capacities ns) ''memory'' (get_items (items nm)) cs"
  show "get_cluster_memory nm ns =
        Inr \<lparr>cluster_memory =
               \<lparr>total_usage_gi =
                  py_round (fl_div (foldl fl_add (Fin 0) us) (Fin (1024 ^ 3))) 2,
                total_capacity_gi =
                  py_round (fl_div (foldl fl_add (Fin 0) cs) (Fin (1024 ^ 3))) 2,
                cluster_memory.utilization_percent =
                  py_round (util (foldl fl_add (Fin 0) us) (foldl fl_add (Fin 0) cs)) 2\<rparr>,
             cluster_memory_result.nodes =
               map (\<lambda>(item, u, c).
                     \<lparr>memory_node_detail.node = metadata_name item,
                      usage_gi = py_round (fl_div u (Fin (1024 ^ 3))) 2,
                      capacity_gi = py_round (fl_div c (Fin (1024 ^ 3))) 2,
                      memory_node_detail.utilization_percent = py_round (util u c) 2\<rparr>)
                 (zip (get_items (items nm)) (zip us cs))\<rparr>"
    by (simp add: get_cluster_memory_ok [OF p] memory_detail_def)
next
  assume p: "usage_parses usage_cpu (get_items (items nm)) us'"
    "capacity_parses (node_capacities ns) ''cpu'' (get_items (items nm)) cs'"
  show "get_cluster_cpu nm ns =
        Inr \<lparr>cluster_cpu =
               \<lparr>total_usage_cores = py_round (foldl fl_add (Fin 0) us') 3,
                total_capacity_cores = py_round (foldl fl_add (Fin 0) cs') 3,
                cluster_cpu.utilization_percent =
                  py_round (util (foldl fl_add (Fin 0) us') (foldl fl_add (Fin 0) cs')) 2\<rparr>,
             cluster_cpu_result.nodes =
               map (\<lambda>(item, u, c).
                     \<lparr>cpu_node_detail.node = metadata_name item,
                      usage_cores = py_round u 3,
                      capacity_cores = py_round c 3,
                      cpu_node_detail.utilization_percent = py_round (util u c) 2\<rparr>)
                 (zip (get_items (items nm)) (zip us' cs'))\<rparr>"
    by (simp add: get_cluster_cpu_ok [OF p] cpu_detail_def)
next
  assume "parse_quantity (Some (container_usage_cpu container)) = Inr c"
    "parse_quantity (Some (container_usage_memory container)) = Inr m"
  then show "container_body container (total_cpu, total_mem, ms) =
        Inr (fl_add total_cpu c, fl_add total_mem m,
             ms @ [\<lparr>container_metrics.name = container_name container,
                     cpu_cores = py_round c 3,
                     memory_mi = py_round (fl_div m (Fin (1024 ^ 2))) 2\<rparr>])"
    by (simp add: container_body_ok)
next
  assume "container_loop (get_items (pod_containers pod)) (Fin 0, Fin 0, []) =
      Inr (pod_cpu, pod_mem, pod_ms)"
  then show "pod_body pod result =
        Inr (result @
             [\<lparr>pod_metrics.name = pod_metadata_name pod,
               namespace = pod_metadata_namespace pod,
               total_cpu_cores = py_round pod_cpu 3,
               total_memory_mi = py_round (fl_div pod_mem (Fin (1024 ^ 2))) 2,
               containers = pod_ms\<rparr>])"
    by (simp add: pod_body_ok)
next
  show "py_round (fl_div (Fin (2 * 1024 ^ 3)) (Fin (1024 ^ 3))) 2 = Fin 2"
    by code_simp
qed

theorem reported_units_and_rounding_witness:
  "get_cluster_memory
     \<lparr>items = Some [\<lparr>metadata_name = ''a'', usage_cpu = ''12'', usage_memory = ''2147483648''\<rparr>]\<rparr>
     [\<lparr>node_metadata_name = ''a'', status_capacity = [''cpu'' \<mapsto> ''10'', ''memory'' \<mapsto> ''4Gi'']\<rparr>] =
   Inr \<lparr>cluster_memory =
          \<lparr>total_usage_gi = Fin 2, total_capacity_gi = Fin 4,
           cluster_memory.utilization_percent = Fin 50\<rparr>,
        cluster_memory_result.nodes =
          [\<lparr>memory_node_detail.node = ''a'', usage_gi = Fin 2, capacity_gi = Fin 4,
            memory_node_detail.utilization_percent = Fin 50\<rparr>]\<rparr> \<and>
   get_cluster_cpu
     \<lparr>items = Some [\<lparr>metadata_name = ''a'', usage_cpu = ''12'', usage_memory = ''2147483648''\<rparr>]\<rparr>
     [\<lparr>node_metadata_name = ''a'', status_capacity = [''cpu'' \<mapsto> ''10'', ''memory'' \<mapsto> ''4Gi'']\<rparr>] =
   Inr \<lparr>cluster_cpu =
          \<lparr>total_usage_cores = Fin 12, total_capacity_cores = Fin 10,
           cluster_cpu.utilization_percent = Fin 120\<rparr>,
        cluster_cpu_result.nodes =
          [\<lparr>cpu_node_detail.node = ''a'', usage_cores = Fin 12, capacity_cores = Fin 10,
            cpu_node_detail.utilization_percent = Fin 120\<rparr>]\<rparr> \<and>
   container_body
     \<lparr>container_name = ''c'', container_usage_cpu = ''12'',
      container_usage_memory = ''2147483648''\<rparr> (Fin 0, Fin 0, []) =
   Inr (Fin 12, Fin 2147483648,
        [\<lparr>container_metrics.name = ''c'', cpu_cores = Fin 12, memory_mi = Fin 2048\<rparr>])"
proof -
  let ?item = "\<lparr>metadata_name = ''a'', usage_cpu = ''12'', usage_memory = ''2147483648''\<rparr>"
  let ?nm = "\<lparr>items = Some [?item]\<rparr>"
  let ?ns = "[\<lparr>node_metadata_name = ''a'',
               status_capacity = [''cpu'' \<mapsto> ''10'', ''memory'' \<mapsto> ''4Gi'']\<rparr>]"
  let ?container = "\<lparr>container_name = ''c'', container_usage_cpu = ''12'',
      container_usage_memory = ''2147483648''\<rparr>"
  have p2G: "parse_quantity (Some ''2147483648'') = Inr (Fin 2147483648)"
    and p4G: "parse_quantity (Some ''4Gi'') = Inr (Fin 4294967296)"
    by code_simp+
  have um: "usage_parses usage_memory (get_items (items ?nm)) [Fin 2147483648]"
    by (simp add: usage_parses_def get_items_def p2G)
  have cm: "capacity_parses (node_capacities ?ns) ''memory'' (get_items (items ?nm))
              [Fin 4294967296]"
    by (simp add: capacity_parses_def get_items_def capacity_str_def dict_get_def
        node_capacities_def p4G)
  have uc: "usage_parses usage_cpu (get_items (items ?nm)) [Fin 12]"
    by (simp add: usage_parses_def get_items_def parse_12)
  have cc: "capacity_parses (node_capacities ?ns) ''cpu'' (get_items (items ?nm)) [Fin 10]"
    by (simp add: capacity_parses_def get_items_def capacity_str_def dict_get_def
        node_capacities_def parse_10)
  have pk: "parse_quantity (Some (container_usage_cpu ?container)) = Inr (Fin 12)"
    "parse_quantity (Some (container_usage_memory ?container)) = Inr (Fin 2147483648)"
    by (simp_all add: parse_12 p2G)
  have v: "py_round (fl_div (foldl fl_add (Fin 0) [Fin 2147483648]) (Fin (1024 ^ 3))) 2 = Fin 2"
    "py_round (fl_div (foldl fl_add (Fin 0) [Fin 4294967296]) (Fin (1024 ^ 3))) 2 = Fin 4"
    "py_round (util (foldl fl_add (Fin 0) [Fin 2147483648])
       (foldl fl_add (Fin 0) [Fin 4294967296])) 2 = Fin 50"
    "py_round (fl_div (Fin 2147483648) (Fin (1024 ^ 3))) 2 = Fin 2"
    "py_round (fl_div (Fin 4294967296) (Fin (1024 ^ 3))) 2 = Fin 4"
    "py_round (util (Fin 2147483648) (Fin 4294967296)) 2 = Fin 50"
    "py_round (foldl fl_add (Fin 0) [Fin 12]) 3 = Fin 12"
    "py_round (foldl fl_add (Fin 0) [Fin 10]) 3 = Fin 10"
    "py_round (util (foldl fl_add (Fin 0) [Fin 12]) (foldl fl_add (Fin 0) [Fin 10])) 2 = Fin 120"
    "py_round (Fin 12) 3 = Fin 12" "py_round (Fin 10) 3 = Fin 10"
    "py_round (util (Fin 12) (Fin 10)) 2 = Fin 120"
    "fl_add (Fin 0) (Fin 12) = Fin 12" "fl_add (Fin 0) (Fin 2147483648) = Fin 2147483648"
    "py_round (fl_div (Fin 2147483648) (Fin (1024 ^ 2))) 2 = Fin 2048"
    by code_simp+
  have z: "zip (get_items (items ?nm)) (zip [x] [y]) = [(?item, x, y)]" for x y :: pyfloat
    by (simp add: get_items_def)
  note T = reported_units_and_rounding [where nm = ?nm and ns = ?ns
      and us = "[Fin 2147483648]" and cs = "[Fin 4294967296]"
      and us' = "[Fin 12]" and cs' = "[Fin 10]"
      and container = ?container and c = "Fin 12" and m = "Fin 2147483648"
      and total_cpu = "Fin 0" and total_mem = "Fin 0" and ms = "[]"]
  from T um cm have 1: "get_cluster_memory ?nm ?ns =
   Inr \<lparr>cluster_memory =
          \<lparr>total_usage_gi = Fin 2, total_capacity_gi = Fin 4,
           cluster_memory.utilization_percent = Fin 50\<rparr>,
        cluster_memory_result.nodes =
          [\<lparr>memory_node_detail.node = ''a'', usage_gi = Fin 2, capacity_gi = Fin 4,
            memory_node_detail.utilization_percent = Fin 50\<rparr>]\<rparr>"
    by (simp only: v z list.map prod.case node_metrics_item.simps simp_thms)
  from T uc cc have 2: "get_cluster_cpu ?nm ?ns =
   Inr \<lparr>cluster_cpu =
          \<lparr>total_usage_cores = Fin 12, total_capacity_cores = Fin 10,
           cluster_cpu.utilization_percent = Fin 120\<rparr>,
        cluster_cpu_result.nodes =
          [\<lparr>cpu_node_detail.node = ''a'', usage_cores = Fin 12, capacity_cores = Fin 10,
            cpu_node_detail.utilization_percent = Fin 120\<rparr>]\<rparr>"
    by (simp only: v z list.map prod.case node_metrics_item.simps simp_thms)
  from T pk have 3: "container_body ?container (Fin 0, Fin 0, []) =
   Inr (Fin 12, Fin 2147483648,
        [\<lparr>container_metrics.name = ''c'', cpu_cores = Fin 12, memory_mi = Fin 2048\<rparr>])"
    by (simp only: v append_Nil container_item.simps simp_thms)
  from 1 2 3 show ?thesis by (intro conjI)
qed

section \<open>Failures of the quantity parser\<close>

lemma is_float_literal_iff: "\<not> is_float_literal s \<longleftrightarrow> py_float s = Inl ValueError"
  using py_float_cases [of s] by (auto simp: is_float_literal_def)

lemma py_float_error: "py_float s = Inl e \<longleftrightarrow> e = ValueError \<and> \<not> is_float_literal s"
  using py_float_cases [of s] by (auto simp: is_float_literal_def)

lemma bnd_scaled_error:
  "bnd (py_float s) (\<lambda>x. Inr (f x)) = Inl e \<longleftrightarrow> py_float s = Inl e"
  by (cases "py_float s") (simp_all add: bnd_def)

lemma scan_units_error:
  "scan_units us s = Inl e \<longleftrightarrow>
   py_float (case find (endswith s) (map fst us) of
               Some sfx \<Rightarrow> take (length s - length sfx) s
             | None \<Rightarrow> s) = Inl e"
  by (induction us s rule: scan_units.induct) (simp_all add: bnd_scaled_error)

lemma parse_quantity_error:
  "parse_quantity (Some s) = Inl e \<longleftrightarrow> s \<noteq> [] \<and> py_float (remainder s) = Inl e"
proof -
  have div: "py_truediv x (int_to_float 1000) = Inr (fl_div x (Fin 1000))"
    "py_truediv x (int_to_float 1000000000) = Inr (fl_div x (Fin 1000000000))" for x
    by (simp_all add: py_truediv_def int_to_float_consts)
  consider "s = []" | "s \<noteq> []" "endswith s ''m''"
    | "s \<noteq> []" "\<not> endswith s ''m''" "endswith s ''n''"
    | "s \<noteq> []" "\<not> endswith s ''m''" "\<not> endswith s ''n''"
    by blast
  then show ?thesis
  proof cases
    case 1
    then show ?thesis by (simp add: parse_quantity_def)
  next
    case 2
    then show ?thesis by (simp add: parse_quantity_def remainder_def div bnd_scaled_error)
  next
    case 3
    then show ?thesis by (simp add: parse_quantity_def remainder_def div bnd_scaled_error)
  next
    case 4
    then show ?thesis by (simp add: parse_quantity_def remainder_def scan_units_error)
  qed
qed

lemma cpu_loop_fails:
  assumes "item \<in> set its"
    and "parse_quantity (Some (usage_cpu item)) = Inl e \<or>
         parse_quantity (Some (capacity_str caps (metadata_name item) ''cpu'')) = Inl e"
  shows "cpu_loop caps its st = Inl ValueError"
proof (cases "cpu_loop caps its st")
  case (Inl e')
  with cpu_loop_error [of caps its st e'] show ?thesis by simp
next
  case (Inr st')
  from cpu_loop_Inr [OF Inr] obtain us cs where
    "usage_parses usage_cpu its us" "capacity_parses caps ''cpu'' its cs" by blast
  then have "\<exists>us. usage_parses usage_cpu its us"
    "\<exists>cs. usage_parses (\<lambda>item. capacity_str caps (metadata_name item) ''cpu'') its cs"
    by (auto simp: capacity_parses_usage)
  with assms(1) have "\<exists>u. parse_quantity (Some (usage_cpu item)) = Inr u"
    "\<exists>c. parse_quantity (Some (capacity_str caps (metadata_name item) ''cpu'')) = Inr c"
    unfolding usage_parses_iff by blast+
  with assms(2) show ?thesis by auto
qed

lemma memory_loop_Inr:
  "memory_loop caps its st = Inr st' \<Longrightarrow>
   \<exists>us cs. usage_parses usage_memory its us \<and> capacity_parses caps ''memory'' its cs"
proof (induction its arbitrary: st)
  case Nil
  then show ?case by (simp add: usage_parses_def capacity_parses_def)
next
  case (Cons item its)
  obtain tu tc ds where st: "st = (tu, tc, ds)" by (cases st) auto
  from parse_quantity_cases [of "Some (usage_memory item)"] Cons.prems
  obtain u where pu: "parse_quantity (Some (usage_memory item)) = Inr u"
    by (auto simp: memory_body_usage_fails)
  from parse_quantity_cases [of "Some (capacity_str caps (metadata_name item) ''memory'')"]
    Cons.prems
  obtain c where
    pc: "parse_quantity (Some (capacity_str caps (metadata_name item) ''memory'')) = Inr c"
    by (auto simp: memory_body_capacity_fails [OF pu])
  from Cons.prems
  have "memory_loop caps its
          (fl_add tu u, fl_add tc c, ds @ [memory_detail (metadata_name item) u c]) = Inr st'"
    by (simp add: st memory_body_ok [OF pu pc])
  from Cons.IH [OF this] obtain us cs where
    "usage_parses usage_memory its us" "capacity_parses caps ''memory'' its cs" by blast
  then have "usage_parses usage_memory (item # its) (u # us) \<and>
             capacity_parses caps ''memory'' (item # its) (c # cs)"
    using pu pc by (simp add: usage_parses_def capacity_parses_def)
  then show ?case by blast
qed

lemma memory_loop_fails:
  assumes "item \<in> set its"
    and "parse_quantity (Some (usage_memory item)) = Inl e \<or>
         parse_quantity (Some (capacity_str caps (metadata_name item) ''memory'')) = Inl e"
  shows "memory_loop caps its st = Inl ValueError"
proof (cases "memory_loop caps its st")
  case (Inl e')
  with memory_loop_error [of caps its st e'] show ?thesis by simp
next
  case (Inr st')
  from memory_loop_Inr [OF Inr] obtain us cs where
    "usage_parses usage_memory its us" "capacity_parses caps ''memory'' its cs" by blast
  then have "\<exists>us. usage_parses usage_memory its us"
    "\<exists>cs. usage_parses (\<lambda>item. capacity_str caps (metadata_name item) ''memory'') its cs"
    by (auto simp: capacity_parses_usage)
  with assms(1) have "\<exists>u. parse_quantity (Some (usage_memory item)) = Inr u"
    "\<exists>c. parse_quantity (Some (capacity_str caps (metadata_name item) ''memory'')) = Inr c"
    unfolding usage_parses_iff by blast+
  with assms(2) show ?thesis by auto
qed

text \<open>
  Claim C5. \<^verbatim>\<open>parse_quantity\<close> fails, with the ValueError of \<^verbatim>\<open>float\<close>, exactly when the
  string is not empty and what is left after the suffix handling (the whole string when
  no suffix matched) is not a valid floating-point literal; it has no other error, and
  \<^verbatim>\<open>None\<close> and the empty string do not fail. The failure is not replaced by a value: it
  propagates, so an aggregation with an item whose usage or capacity string fails to
  parse fails with that ValueError and returns no report.
\<close>

theorem parse_failure_iff:
  "(parse_quantity (Some s) = Inl e \<longleftrightarrow>
      e = ValueError \<and> s \<noteq> [] \<and> \<not> is_float_literal (remainder s)) \<and>
   parse_quantity None \<noteq> Inl e \<and>
   (parse_quantity q = Inl e \<longrightarrow> e = ValueError) \<and>
   (item \<in> set (get_items (items nm)) \<longrightarrow>
    (parse_quantity (Some (usage_cpu item)) = Inl e \<or>
     parse_quantity (Some (capacity_str (node_capacities ns) (metadata_name item) ''cpu'')) = Inl e)
    \<longrightarrow> get_cluster_cpu nm ns = Inl ValueError) \<and>
   (item \<in> set (get_items (items nm)) \<longrightarrow>
    (parse_quantity (Some (usage_memory item)) = Inl e \<or>
     parse_quantity (Some (capacity_str (node_capacities ns) (metadata_name item) ''memory'')) = Inl e)
    \<longrightarrow> get_cluster_memory nm ns = Inl ValueError)"
proof (intro conjI impI)
  show "parse_quantity (Some s) = Inl e \<longleftrightarrow>
      e = ValueError \<and> s \<noteq> [] \<and> \<not> is_float_literal (remainder s)"
    by (auto simp: parse_quantity_error py_float_error)
  show "parse_quantity None \<noteq> Inl e" by (simp add: parse_quantity_def)
next
  assume "parse_quantity q = Inl e"
  with parse_quantity_cases [of q] show "e = ValueError" by auto
next
  assume "item \<in> set (get_items (items nm))"
    and "parse_quantity (Some (usage_cpu item)) = Inl e \<or>
     parse_quantity (Some (capacity_str (node_capacities ns) (metadata_name item) ''cpu'')) = Inl e"
  from cpu_loop_fails [OF this] show "get_cluster_cpu nm ns = Inl ValueError"
    by (simp add: get_cluster_cpu_def bnd_def)
next
  assume "item \<in> set (get_items (items nm))"
    and "parse_quantity (Some (usage_memory item)) = Inl e \<or>
     parse_quantity (Some (capacity_str (node_capacities ns) (metadata_name item) ''memory'')) = Inl e"
  from memory_loop_fails [OF this] show "get_cluster_memory nm ns = Inl ValueError"
    by (simp add: get_cluster_memory_def bnd_def)
qed

text \<open>
  The string \<^verbatim>\<open>1.5.2Gi\<close> leaves \<^verbatim>\<open>1.5.2\<close>, which is no float literal: parsing fails, and so
  does the CPU aggregation of a listing whose second item has this usage.
\<close>

theorem parse_failure_iff_witness:
  "remainder ''1.5.2Gi'' = ''1.5.2'' \<and> \<not> is_float_literal ''1.5.2'' \<and>
   parse_quantity (Some ''1.5.2Gi'') = Inl ValueError \<and>
   get_cluster_cpu
     \<lparr>items = Some [\<lparr>metadata_name = ''a'', usage_cpu = ''12'', usage_memory = ''0''\<rparr>,
                    \<lparr>metadata_name = ''b'', usage_cpu = ''1.5.2Gi'', usage_memory = ''0''\<rparr>]\<rparr> []
     = Inl ValueError"
proof -
  let ?b = "\<lparr>metadata_name = ''b'', usage_cpu = ''1.5.2Gi'', usage_memory = ''0''\<rparr>"
  let ?nm = "\<lparr>items = Some [\<lparr>metadata_name = ''a'', usage_cpu = ''12'', usage_memory = ''0''\<rparr>, ?b]\<rparr>"
  have r: "remainder ''1.5.2Gi'' = ''1.5.2''" by code_simp
  have n: "\<not> is_float_literal ''1.5.2''" by code_simp
  note T = parse_failure_iff [where s = "''1.5.2Gi''" and e = ValueError and item = ?b
      and nm = ?nm and ns = "[]"]
  from T r n have 1: "parse_quantity (Some ''1.5.2Gi'') = Inl ValueError" by simp
  have m: "?b \<in> set (get_items (items ?nm))" by (simp add: get_items_def)
  from 1 have f: "parse_quantity (Some (usage_cpu ?b)) = Inl ValueError" by simp
  from T m f have 2: "get_cluster_cpu ?nm [] = Inl ValueError" by blast
  from r n 1 2 show ?thesis by (intro conjI)
qed

section \<open>Letter case of the suffixes\<close>

subsection \<open>Where a float literal can end\<close>

lemma last_dropWhile:
  "xs \<noteq> [] \<Longrightarrow> \<not> P (last xs) \<Longrightarrow> dropWhile P xs \<noteq> [] \<and> last (dropWhile P xs) = last xs"
  by (induction xs) (auto split: if_splits)

lemma strip_snoc: "\<not> is_space c \<Longrightarrow> strip (x @ [c]) = dropWhile is_space x @ [c]"
  by (simp add: strip_def dropWhile_append3)

lemma filter_snoc_last:
  "c \<noteq> CHR ''_'' \<Longrightarrow> filter (\<lambda>c. c \<noteq> CHR ''_'') (t @ [c]) = filter (\<lambda>c. c \<noteq> CHR ''_'') t @ [c]"
  by simp

lemma parse_exponent_last:
  "parse_exponent r = Some ex \<Longrightarrow> r \<noteq> [] \<Longrightarrow> is_digit (last r)"
proof -
  assume a: "parse_exponent r = Some ex" and "r \<noteq> []"
  then obtain c r' where r: "r = c # r'" by (cases r) auto
  have all: "ds \<noteq> [] \<Longrightarrow> list_all is_digit ds \<Longrightarrow> is_digit (last ds)" for ds
    by (simp add: list_all_iff)
  from a r obtain s ds where r': "r' = s # ds"
    by (cases r') (auto simp: parse_exponent_def split: if_splits)
  from a r r' have "(ds \<noteq> [] \<and> list_all is_digit ds) \<or> list_all is_digit r'"
    by (auto simp: parse_exponent_def split: if_splits)
  then have "is_digit (last r')"
    using all [of ds] all [of r'] r' by auto
  with r r' show ?thesis by simp
qed

lemma takeWhile_last: "takeWhile P xs \<noteq> [] \<Longrightarrow> P (last (takeWhile P xs))"
  using set_takeWhileD [of "last (takeWhile P xs)" P xs] by simp

lemma last_decomp: "b = xs @ ys \<Longrightarrow> ys \<noteq> [] \<Longrightarrow> b \<noteq> [] \<and> last b = last ys"
  by simp

lemma parse_decimal_last:
  assumes "parse_decimal b = Some q"
  shows "b \<noteq> [] \<and> (is_digit (last b) \<or> last b = CHR ''.'')"
proof -
  let ?ip = "takeWhile is_digit b" and ?r1 = "dropWhile is_digit b"
  have b: "b = ?ip @ ?r1" by simp
  show ?thesis
  proof (cases "?r1 \<noteq> [] \<and> hd ?r1 = CHR ''.''")
    case False
    with assms have ip: "?ip \<noteq> []" and ex: "parse_exponent ?r1 \<noteq> None"
      by (auto simp: parse_decimal_def Let_def split: if_splits option.splits)
    show ?thesis
    proof (cases "?r1 = []")
      case True
      then have all: "\<forall>x\<in>set b. is_digit x" by simp
      from ip have ne: "b \<noteq> []" by auto
      from ne have "last b \<in> set b" by (rule last_in_set)
      with all have "is_digit (last b)" by (rule bspec)
      with ne show ?thesis by blast
    next
      case r: False
      from ex obtain e where "parse_exponent ?r1 = Some e" by auto
      from parse_exponent_last [OF this r] have "is_digit (last ?r1)" .
      with last_decomp [OF b r] show ?thesis by metis
    qed
  next
    case True
    then obtain rest where r1: "?r1 = CHR ''.'' # rest" by (cases ?r1) auto
    let ?fp = "takeWhile is_digit rest" and ?r2 = "dropWhile is_digit rest"
    from assms True r1 have ex: "parse_exponent ?r2 \<noteq> None"
      by (auto simp: parse_decimal_def Let_def split: if_splits option.splits)
    have rest: "rest = ?fp @ ?r2" by simp
    have "b = ?ip @ CHR ''.'' # rest" using b unfolding r1 .
    then have "b = ?ip @ CHR ''.'' # (?fp @ ?r2)" using rest by metis
    then have b2: "b = (?ip @ CHR ''.'' # ?fp) @ ?r2" 
      and b3: "?r2 = [] \<Longrightarrow> b = (?ip @ [CHR ''.'']) @ ?fp" 
      and b4: "?r2 = [] \<Longrightarrow> ?fp = [] \<Longrightarrow> b = ?ip @ [CHR ''.'']" 
      by (metis append.assoc append_Cons, metis append.assoc append_Cons append_Nil append_Nil2,
          metis append_Nil2)
    show ?thesis
    proof (cases "?r2 = []")
      case r2: True
      show ?thesis
      proof (cases "?fp = []")
        case True
        from last_decomp [OF b4 [OF r2 True]] show ?thesis by simp
      next
        case False
        from last_decomp [OF b3 [OF r2] False] takeWhile_last [OF False] show ?thesis by metis
      qed
    next
      case r2: False
      from ex obtain e where "parse_exponent ?r2 = Some e" by auto
      from parse_exponent_last [OF this r2] have d: "is_digit (last ?r2)" .
      with last_decomp [OF b2 r2] show ?thesis by metis
    qed
  qed
qed

lemma parse_inf_or_nan_shape:
  "parse_inf_or_nan b = Some v \<Longrightarrow>
   map to_lower b = ''inf'' \<or> map to_lower b = ''infinity'' \<or> map to_lower b = ''nan''"
  by (auto simp: parse_inf_or_nan_def Let_def split: if_splits)

lemma parse_inf_or_nan_last:
  assumes "parse_inf_or_nan b = Some v"
  shows "b \<noteq> [] \<and> (to_lower (last b) = CHR ''f'' \<or> to_lower (last b) = CHR ''y'' \<or>
                      to_lower (last b) = CHR ''n'')"
proof -
  from parse_inf_or_nan_shape [OF assms] have ne: "b \<noteq> []" by auto
  from ne have "to_lower (last b) = last (map to_lower b)" by (simp add: last_map)
  with parse_inf_or_nan_shape [OF assms] ne show ?thesis by auto
qed

lemma float_from_string_inner_last:
  assumes "float_from_string_inner t = Inr y"
  shows "t \<noteq> [] \<and> float_end (last t)"
proof -
  let ?body = "if t \<noteq> [] \<and> (hd t = CHR ''-'' \<or> hd t = CHR ''+'') then tl t else t"
  from assms have "(\<exists>q. parse_decimal ?body = Some q) \<or> (\<exists>v. parse_inf_or_nan ?body = Some v)"
    by (auto simp: float_from_string_inner_def Let_def split: option.splits)
  with parse_decimal_last [of ?body] parse_inf_or_nan_last [of ?body]
  have body: "?body \<noteq> [] \<and> float_end (last ?body)"
    unfolding float_end_def by blast
  then have t: "t \<noteq> []" by (auto split: if_splits)
  from body have "last ?body = last t"
    by (auto split: if_splits simp: last_tl)
  with body t show ?thesis by simp
qed

lemma py_float_snoc_last:
  assumes "py_float (x @ [c]) = Inr y" and "\<not> is_space c" and "c \<noteq> CHR ''_''"
  shows "float_end c"
proof -
  let ?t = "dropWhile is_space x @ [c]"
  from assms(1,2) have
    "float_from_string_inner (filter (\<lambda>c. c \<noteq> CHR ''_'') ?t) = Inr y \<or>
     float_from_string_inner ?t = Inr y"
    by (auto simp: py_float_def Let_def strip_snoc split: if_splits)
  then show ?thesis
  proof
    assume "float_from_string_inner (filter (\<lambda>c. c \<noteq> CHR ''_'') ?t) = Inr y"
    from float_from_string_inner_last [OF this] assms(3) show ?thesis by simp
  next
    assume "float_from_string_inner ?t = Inr y"
    from float_from_string_inner_last [OF this] show ?thesis by simp
  qed
qed

subsection \<open>No known suffix ends a case variant\<close>

lemma case_variants_eq:
  "case_variants = [''N'', ''ki'', ''kI'', ''KI'', ''mi'', ''mI'', ''MI'', ''gi'', ''gI'', ''GI'',
                    ''ti'', ''tI'', ''TI'', ''k'', ''g'', ''t'']"
  by code_simp

lemma suffix_table_eq:
  "suffix_table = [''m'', ''n'', ''Ki'', ''Mi'', ''Gi'', ''Ti'', ''K'', ''M'', ''G'', ''T'']"
  by (simp add: suffix_table_def units_def)

lemma endswith_append: "length sfx \<le> length v \<Longrightarrow> endswith (x @ v) sfx = endswith v sfx"
  by (simp add: endswith_def)

lemma endswith_last: "endswith s sfx \<Longrightarrow> sfx \<noteq> [] \<Longrightarrow> last s = last sfx"
  unfolding endswith_suffix suffix_def by auto

lemma endswith_append_no:
  assumes "(length sfx \<le> length v \<and> \<not> endswith v sfx) \<or>
           (v \<noteq> [] \<and> sfx \<noteq> [] \<and> last v \<noteq> last sfx)"
  shows "\<not> endswith (x @ v) sfx"
  using assms endswith_append [of sfx v x] endswith_last [of "x @ v" sfx] by auto

lemma variants_table:
  "list_all (\<lambda>v. list_all (\<lambda>sfx. (length sfx \<le> length v \<and> \<not> endswith v sfx) \<or>
                                 (v \<noteq> [] \<and> sfx \<noteq> [] \<and> last v \<noteq> last sfx)) suffix_table)
            case_variants"
  by code_simp

lemma no_suffix_matches:
  assumes "v \<in> set case_variants" and "sfx \<in> set suffix_table"
  shows "\<not> endswith (x @ v) sfx"
proof -
  from variants_table assms
  have "(length sfx \<le> length v \<and> \<not> endswith v sfx) \<or>
        (v \<noteq> [] \<and> sfx \<noteq> [] \<and> last v \<noteq> last sfx)"
    unfolding list_all_iff by blast
  then show ?thesis by (rule endswith_append_no)
qed

lemma remainder_no_suffix:
  assumes "\<forall>sfx\<in>set suffix_table. \<not> endswith s sfx"
  shows "remainder s = s"
proof -
  from assms have "\<not> endswith s ''m''" "\<not> endswith s ''n''"
    and "\<forall>sfx\<in>set (map fst units). \<not> endswith s sfx"
    by (simp_all add: suffix_table_def)
  then have "find (endswith s) (map fst units) = None"
    by (simp add: find_None_iff)
  with \<open>\<not> endswith s ''m''\<close> \<open>\<not> endswith s ''n''\<close> show ?thesis
    by (simp add: remainder_def)
qed

subsection \<open>A case variant makes the string no float literal\<close>

lemma variants_last:
  "list_all (\<lambda>v. v = ''N'' \<or>
                 (v \<noteq> [] \<and> \<not> float_end (last v) \<and> \<not> is_space (last v) \<and> last v \<noteq> CHR ''_''))
            case_variants"
  by code_simp

lemma py_float_append_last:
  assumes "v \<noteq> []" and "\<not> float_end (last v)" and "\<not> is_space (last v)"
    and "last v \<noteq> CHR ''_''"
  shows "py_float (x @ v) = Inl ValueError"
proof -
  from assms(1) have "x @ v = (x @ butlast v) @ [last v]" by simp
  with py_float_snoc_last [of "x @ butlast v" "last v"] assms(2-4)
  have "\<And>y. py_float (x @ v) \<noteq> Inr y" by metis
  with py_float_cases [of "x @ v"] show ?thesis by auto
qed

lemma to_lower_cases: "to_lower c = c \<or> (65 \<le> (of_char c :: nat) \<and> (of_char c :: nat) \<le> 90)"
  by (simp add: to_lower_def)

lemma to_lower_n:
  assumes "to_lower c = CHR ''n''"
  shows "\<not> is_digit c" and "c \<noteq> CHR ''.''" and "c \<noteq> CHR ''-''" and "c \<noteq> CHR ''+''"
    and "c \<noteq> CHR ''_''"
  using assms to_lower_cases [of c] by (auto simp: is_digit_def)

lemma to_lower_a:
  assumes "to_lower c = CHR ''a''"
  shows "\<not> is_digit c" and "\<not> is_space c" and "c \<noteq> CHR ''_''"
  using assms to_lower_cases [of c] by (auto simp: is_digit_def is_space_def)

lemma underscores_digit:
  "underscores_ok prev t \<Longrightarrow> CHR ''_'' \<in> set t \<Longrightarrow> is_digit prev \<or> (\<exists>d\<in>set t. is_digit d)"
proof (induction t arbitrary: prev)
  case Nil
  then show ?case by simp
next
  case (Cons c cs)
  show ?case
  proof (cases "c = CHR ''_''")
    case True
    with Cons.prems show ?thesis by simp
  next
    case False
    with Cons.prems have "underscores_ok c cs" "CHR ''_'' \<in> set cs"
      by (auto split: if_splits)
    from Cons.IH [OF this] show ?thesis by auto
  qed
qed

lemma float_inner_snoc_N:
  assumes "float_from_string_inner (t @ ''N'') = Inr y"
  shows "\<exists>sg a b. t = sg @ [a, b] \<and> (sg = [] \<or> sg = ''-'' \<or> sg = ''+'') \<and>
                   to_lower a = CHR ''n'' \<and> to_lower b = CHR ''a''"
proof -
  let ?tN = "t @ ''N''"
  let ?body = "if ?tN \<noteq> [] \<and> (hd ?tN = CHR ''-'' \<or> hd ?tN = CHR ''+'') then tl ?tN else ?tN"
  have "\<exists>sg core. t = sg @ core \<and> (sg = [] \<or> sg = ''-'' \<or> sg = ''+'') \<and>
                    ?body = core @ ''N''"
  proof (cases t)
    case Nil
    then show ?thesis by simp
  next
    case (Cons c cs)
    show ?thesis
    proof (cases "c = CHR ''-'' \<or> c = CHR ''+''")
      case True
      with Cons have "t = [c] @ cs \<and> ([c] = [] \<or> [c] = ''-'' \<or> [c] = ''+'') \<and>
                      ?body = cs @ ''N''"
        by auto
      then show ?thesis by (intro exI)
    next
      case False
      with Cons have "t = [] @ t \<and> ([] = [] \<or> [] = ''-'' \<or> [] = ''+'') \<and>
                      ?body = t @ ''N''"
        by auto
      then show ?thesis by (intro exI)
    qed
  qed
  then obtain sg core where t: "t = sg @ core" and sg: "sg = [] \<or> sg = ''-'' \<or> sg = ''+''"
    and body: "?body = core @ ''N''"
    by (elim exE conjE)
  from assms have "(\<exists>q. parse_decimal ?body = Some q) \<or> (\<exists>v. parse_inf_or_nan ?body = Some v)"
    by (auto simp: float_from_string_inner_def Let_def split: option.splits)
  then have alt: "(\<exists>q. parse_decimal (core @ ''N'') = Some q) \<or>
             (\<exists>v. parse_inf_or_nan (core @ ''N'') = Some v)"
    unfolding body .
  have nd: "\<not> is_digit CHR ''N''" by (simp add: is_digit_def)
  have "parse_decimal (core @ ''N'') \<noteq> Some q" for q
    using parse_decimal_last [of "core @ ''N''" q] nd by auto
  with alt obtain v where "parse_inf_or_nan (core @ ''N'') = Some v" by auto
  from parse_inf_or_nan_shape [OF this]
  have "map to_lower core @ [to_lower CHR ''N''] = ''inf'' \<or>
        map to_lower core @ [to_lower CHR ''N''] = ''infinity'' \<or>
        map to_lower core @ [to_lower CHR ''N''] = ''nan''"
    by simp
  moreover have "to_lower CHR ''N'' = CHR ''n''" by code_simp
  ultimately have "map to_lower core @ ''n'' = ''in'' @ ''f'' \<or>
        map to_lower core @ ''n'' = ''infinit'' @ ''y'' \<or>
        map to_lower core @ ''n'' = ''na'' @ ''n''"
    by simp
  then have "map to_lower core = ''na''"
    unfolding append1_eq_conv by simp
  then obtain a b where "core = [a, b]" "to_lower a = CHR ''n''" "to_lower b = CHR ''a''"
    by (auto simp: map_eq_Cons_conv)
  with t sg show ?thesis by (intro exI [of _ sg] exI [of _ a] exI [of _ b]) simp
qed

lemma float_inner_na:
  assumes "sg = [] \<or> sg = ''-'' \<or> sg = ''+''"
    and "to_lower a = CHR ''n''" and "to_lower b = CHR ''a''"
  shows "float_from_string_inner (sg @ [a, b]) = Inl ValueError"
proof -
  have d: "parse_decimal [a, b] = None"
    using to_lower_n [OF assms(2)] by (simp add: parse_decimal_def)
  have n: "parse_inf_or_nan [a, b] = None"
    by (simp add: parse_inf_or_nan_def)
  from assms(1) to_lower_n [OF assms(2)] d n show ?thesis
    by (auto simp: float_from_string_inner_def)
qed

lemma py_float_snoc_N:
  assumes "py_float (x @ ''N'') = Inr y"
  shows "py_float x = Inl ValueError"
proof -
  define x' where "x' = dropWhile is_space x"
  have sp: "\<not> is_space CHR ''N''" by (simp add: is_space_def)
  have nN: "\<not> is_digit CHR ''N''" by (simp add: is_digit_def)
  have nU: "\<not> is_digit CHR ''_''" by (simp add: is_digit_def)
  have nZ: "\<not> is_digit (CHR 0x00)" by (simp add: is_digit_def)
  have nS: "\<not> is_digit CHR ''-''" "\<not> is_digit CHR ''+''" by (simp_all add: is_digit_def)
  have st: "strip (x @ ''N'') = x' @ ''N''" using strip_snoc [OF sp] unfolding x'_def .
  have pf: "py_float (x @ ''N'') =
      (if CHR ''_'' \<in> set x'
       then (if underscores_ok (CHR 0x00) (x' @ ''N'')
             then float_from_string_inner (filter (\<lambda>c. c \<noteq> CHR ''_'') x' @ ''N'')
             else Inl ValueError)
       else float_from_string_inner (x' @ ''N''))"
    unfolding py_float_def Let_def st by simp
  have "\<exists>sg a b. x' = sg @ [a, b] \<and> (sg = [] \<or> sg = ''-'' \<or> sg = ''+'') \<and>
                  to_lower a = CHR ''n'' \<and> to_lower b = CHR ''a'' \<and> CHR ''_'' \<notin> set x'"
  proof (cases "CHR ''_'' \<in> set x'")
    case False
    with assms pf have "float_from_string_inner (x' @ ''N'') = Inr y" by simp
    from float_inner_snoc_N [OF this] False show ?thesis by blast
  next
    case True
    with assms pf have ok: "underscores_ok (CHR 0x00) (x' @ ''N'')"
      by (simp split: if_splits)
    with True assms pf
    have fl: "float_from_string_inner (filter (\<lambda>c. c \<noteq> CHR ''_'') x' @ ''N'') = Inr y"
      by simp
    from float_inner_snoc_N [OF fl] obtain sg a b where
      f: "filter (\<lambda>c. c \<noteq> CHR ''_'') x' = sg @ [a, b]"
      and sg: "sg = [] \<or> sg = ''-'' \<or> sg = ''+''"
      and ab: "to_lower a = CHR ''n''" "to_lower b = CHR ''a''"
      by blast
    have "\<forall>c\<in>set (sg @ [a, b]). \<not> is_digit c"
      using sg to_lower_n(1) [OF ab(1)] to_lower_a(1) [OF ab(2)] nS by auto
    then have flt: "\<forall>c\<in>set (filter (\<lambda>c. c \<noteq> CHR ''_'') x'). \<not> is_digit c"
      unfolding f .
    have "\<not> is_digit c" if "c \<in> set (x' @ ''N'')" for c
    proof (cases "c = CHR ''_'' \<or> c = CHR ''N''")
      case True
      with nU nN show ?thesis by blast
    next
      case False
      with that have "c \<in> set (filter (\<lambda>c. c \<noteq> CHR ''_'') x')" by simp
      with flt show ?thesis by blast
    qed
    moreover from True have "CHR ''_'' \<in> set (x' @ ''N'')" by simp
    from underscores_digit [OF ok this]
    have "is_digit (CHR 0x00) \<or> (\<exists>d\<in>set (x' @ ''N''). is_digit d)" .
    ultimately have False using nZ by blast
    then show ?thesis ..
  qed
  then obtain sg a b where x: "x' = sg @ [a, b]"
    and sg: "sg = [] \<or> sg = ''-'' \<or> sg = ''+''"
    and ab: "to_lower a = CHR ''n''" "to_lower b = CHR ''a''"
    and nu: "CHR ''_'' \<notin> set x'"
    by blast
  have "rev (dropWhile is_space (rev (sg @ [a, b]))) = sg @ [a, b]"
    using to_lower_a(2) [OF ab(2)] by simp
  then have "strip x = x'"
    unfolding strip_def x'_def [symmetric] x .
  with nu have "py_float x = float_from_string_inner x'" by (simp add: py_float_def)
  also have "\<dots> = Inl ValueError" unfolding x using sg ab by (rule float_inner_na)
  finally show ?thesis .
qed

lemma py_float_variant:
  assumes "py_float x = Inr y" and "v \<in> set case_variants"
  shows "py_float (x @ v) = Inl ValueError"
proof -
  from variants_last assms(2)
  have "v = ''N'' \<or>
        (v \<noteq> [] \<and> \<not> float_end (last v) \<and> \<not> is_space (last v) \<and> last v \<noteq> CHR ''_'')"
    unfolding list_all_iff by blast
  then show ?thesis
  proof
    assume v: "v = ''N''"
    have "py_float (x @ ''N'') \<noteq> Inr z" for z
      using py_float_snoc_N [of x z] assms(1) by auto
    with py_float_cases [of "x @ ''N''"] show ?thesis unfolding v by auto
  next
    assume "v \<noteq> [] \<and> \<not> float_end (last v) \<and> \<not> is_space (last v) \<and> last v \<noteq> CHR ''_''"
    then show ?thesis by (intro py_float_append_last) simp_all
  qed
qed

lemma parse_quantity_no_suffix:
  assumes "\<forall>sfx\<in>set suffix_table. \<not> endswith s sfx" and "s \<noteq> []"
  shows "parse_quantity (Some s) = py_float s"
proof -
  from assms(1) have "\<not> suffix ''m'' s" "\<not> suffix ''n'' s" "\<not> suffix ''Ki'' s"
    "\<not> suffix ''Mi'' s" "\<not> suffix ''Gi'' s" "\<not> suffix ''Ti'' s" "\<not> suffix ''K'' s"
    "\<not> suffix ''M'' s" "\<not> suffix ''G'' s" "\<not> suffix ''T'' s"
    by (simp_all add: suffix_table_eq endswith_suffix)
  with assms(2) show ?thesis unfolding parse_quantity_chain by simp
qed

text \<open>
  Claim C10. The suffixes are matched with their letter case. Take a string \<open>x\<close> that
  \<^verbatim>\<open>float\<close> accepts (so \<open>x\<close> is not empty) and a case variant \<open>v\<close> of a known suffix: one of
  the sixteen strings that equal one of \<^verbatim>\<open>m, n, Ki, Mi, Gi, Ti, K, M, G, T\<close> when letter
  case is ignored and are not in this list themselves. Then no known suffix ends
  \<open>x @ v\<close>, so nothing is stripped and no multiplier is applied: the whole string goes to
  \<^verbatim>\<open>float\<close>, which rejects it, and \<^verbatim>\<open>parse_quantity\<close> fails with the ValueError instead of
  returning a value.
\<close>

theorem suffix_case_sensitive:
  "case_variants = [''N'', ''ki'', ''kI'', ''KI'', ''mi'', ''mI'', ''MI'', ''gi'', ''gI'', ''GI'',
                    ''ti'', ''tI'', ''TI'', ''k'', ''g'', ''t''] \<and>
   (is_float_literal x \<longrightarrow> v \<in> set case_variants \<longrightarrow>
      x \<noteq> [] \<and>
      (\<forall>sfx\<in>set suffix_table. \<not> endswith (x @ v) sfx) \<and>
      remainder (x @ v) = x @ v \<and>
      parse_quantity (Some (x @ v)) = py_float (x @ v) \<and>
      parse_quantity (Some (x @ v)) = Inl ValueError)"
proof (intro conjI impI)
  show "case_variants = [''N'', ''ki'', ''kI'', ''KI'', ''mi'', ''mI'', ''MI'', ''gi'', ''gI'',
                         ''GI'', ''ti'', ''tI'', ''TI'', ''k'', ''g'', ''t'']"
    by (rule case_variants_eq)
next
  assume x: "is_float_literal x" and v: "v \<in> set case_variants"
  from x obtain y where y: "py_float x = Inr y"
    by (auto simp: is_float_literal_def split: sum.splits)
  have "py_float [] = Inl ValueError" by code_simp
  with y show "x \<noteq> []" by auto
  show ns: "\<forall>sfx\<in>set suffix_table. \<not> endswith (x @ v) sfx"
    using no_suffix_matches [OF v] by blast
  then show "remainder (x @ v) = x @ v" by (rule remainder_no_suffix)
  from v have "v \<noteq> []" by (auto simp: case_variants_eq)
  then have "x @ v \<noteq> []" by simp
  with ns show pq: "parse_quantity (Some (x @ v)) = py_float (x @ v)"
    by (rule parse_quantity_no_suffix)
  show "parse_quantity (Some (x @ v)) = Inl ValueError"
    unfolding pq using y v by (rule py_float_variant)
qed

text \<open>
  The strings \<^verbatim>\<open>5ki\<close>, \<^verbatim>\<open>5KI\<close>, \<^verbatim>\<open>5k\<close> and \<^verbatim>\<open>5N\<close> fail, while \<^verbatim>\<open>5Ki\<close> is 5120.
\<close>

theorem suffix_case_sensitive_witness:
  "is_float_literal ''5'' \<and> ''ki'' \<in> set case_variants \<and> ''KI'' \<in> set case_variants \<and>
   ''k'' \<in> set case_variants \<and> ''N'' \<in> set case_variants \<and>
   parse_quantity (Some ''5ki'') = Inl ValueError \<and>
   parse_quantity (Some ''5KI'') = Inl ValueError \<and>
   parse_quantity (Some ''5k'') = Inl ValueError \<and>
   parse_quantity (Some ''5N'') = Inl ValueError \<and>
   remainder ''5ki'' = ''5ki'' \<and>
   parse_quantity (Some ''5Ki'') = Inr (Fin 5120)"
proof -
  have f: "is_float_literal ''5''" by code_simp
  have T: "v \<in> set case_variants \<Longrightarrow>
           remainder (''5'' @ v) = ''5'' @ v \<and> parse_quantity (Some (''5'' @ v)) = Inl ValueError"
    for v
    using suffix_case_sensitive [where x = "''5''" and v = v] f by blast
  have cv: "case_variants = [''N'', ''ki'', ''kI'', ''KI'', ''mi'', ''mI'', ''MI'', ''gi'', ''gI'',
                             ''GI'', ''ti'', ''tI'', ''TI'', ''k'', ''g'', ''t'']"
    using suffix_case_sensitive [where x = "''5''" and v = "''N''"] by (rule conjunct1)
  have m: "''ki'' \<in> set case_variants" "''KI'' \<in> set case_variants"
    "''k'' \<in> set case_variants" "''N'' \<in> set case_variants"
    unfolding cv by simp_all
  from T [OF m(1)] T [OF m(2)] T [OF m(3)] T [OF m(4)] m f parse_5Ki
  show ?thesis by simp
qed

end
